theory Spec2Isabelle
  imports
    Main
    "HOL-Library.Sublist"
    "HOL-Library.Char_ord"
    "HOL-Library.List_Lexorder"
    "HOL-Library.AList"
    "HOL-Library.Word"
begin

section \<open>Go strings\<close>

text \<open>
  A Go string is a sequence of bytes; \<^typ>\<open>string\<close> (a list of 8-bit characters) models
  it byte for byte. A code point beyond ASCII is written as its UTF-8 bytes, as the Go
  compiler stores a \<^verbatim>\<open>"\uXXXX"\<close> literal.
\<close>

definition HasPrefix :: "string \<Rightarrow> string \<Rightarrow> bool" where
  "HasPrefix s p = prefix p s"

definition HasSuffix :: "string \<Rightarrow> string \<Rightarrow> bool" where
  "HasSuffix s p = suffix p s"

definition TrimPrefix :: "string \<Rightarrow> string \<Rightarrow> string" where
  "TrimPrefix s p = (if HasPrefix s p then drop (length p) s else s)"

definition TrimSuffix :: "string \<Rightarrow> string \<Rightarrow> string" where
  "TrimSuffix s p = (if HasSuffix s p then take (length s - length p) s else s)"

text \<open>
  \<^verbatim>\<open>strings.LastIndex(s, sub)\<close> is only called with a one-byte \<^verbatim>\<open>sub\<close>; Go then
  runs its byte search: the index of the last occurrence, or -1.
\<close>

fun LastIndexByte :: "string \<Rightarrow> char \<Rightarrow> int" where
  "LastIndexByte [] c = -1"
| "LastIndexByte (x # xs) c =
     (let r = LastIndexByte xs c
      in if 0 \<le> r then r + 1 else if x = c then 0 else -1)"

text \<open>The slice expression \<^verbatim>\<open>s[i:j]\<close> for \<open>0 \<le> i \<le> j \<le> len(s)\<close>.\<close>

definition slice :: "string \<Rightarrow> int \<Rightarrow> int \<Rightarrow> string" where
  "slice s i j = take (nat (j - i)) (drop (nat i) s)"

text \<open>
  \<^verbatim>\<open>strings.TrimSpace\<close> belongs to the Go standard library. It removes leading and
  trailing runes for which \<^verbatim>\<open>unicode.IsSpace\<close> holds. A rune is decoded from the front
  (or from the back) of the byte string exactly when the string starts (or ends) with the
  rune's UTF-8 encoding, so the function is modelled on bytes with the table of the
  encodings of the white-space runes: U+0009..U+000D, U+0020, U+0085, U+00A0, U+1680,
  U+2000..U+200A, U+2028, U+2029, U+202F, U+205F, U+3000.
\<close>

definition spaceRunes :: "string list" where
  "spaceRunes =
    [[CHR 0x09], [CHR 0x0A], [CHR 0x0B], [CHR 0x0C], [CHR 0x0D], [CHR 0x20],
     [CHR 0xC2, CHR 0x85], [CHR 0xC2, CHR 0xA0],
     [CHR 0xE1, CHR 0x9A, CHR 0x80],
     [CHR 0xE2, CHR 0x80, CHR 0x80], [CHR 0xE2, CHR 0x80, CHR 0x81],
     [CHR 0xE2, CHR 0x80, CHR 0x82], [CHR 0xE2, CHR 0x80, CHR 0x83],
     [CHR 0xE2, CHR 0x80, CHR 0x84], [CHR 0xE2, CHR 0x80, CHR 0x85],
     [CHR 0xE2, CHR 0x80, CHR 0x86], [CHR 0xE2, CHR 0x80, CHR 0x87],
     [CHR 0xE2, CHR 0x80, CHR 0x88], [CHR 0xE2, CHR 0x80, CHR 0x89],
     [CHR 0xE2, CHR 0x80, CHR 0x8A],
     [CHR 0xE2, CHR 0x80, CHR 0xA8], [CHR 0xE2, CHR 0x80, CHR 0xA9],
     [CHR 0xE2, CHR 0x80, CHR 0xAF],
     [CHR 0xE2, CHR 0x81, CHR 0x9F],
     [CHR 0xE3, CHR 0x80, CHR 0x80]]"

function TrimLeftSpace :: "string \<Rightarrow> string" where
  "TrimLeftSpace s =
     (case find (HasPrefix s) spaceRunes of
        None \<Rightarrow> s
      | Some r \<Rightarrow> TrimLeftSpace (drop (length r) s))"
  by pat_completeness auto
termination
proof (relation "measure length")
  fix s r
  assume "find (HasPrefix s) spaceRunes = Some r"
  then have "r \<in> set spaceRunes" and "prefix r s"
    by (auto simp: find_Some_iff HasPrefix_def)
  then have "r \<noteq> []" and "s \<noteq> []"
    by (auto simp: spaceRunes_def)
  then show "(drop (length r) s, s) \<in> measure length"
    by simp
qed simp

function TrimRightSpace :: "string \<Rightarrow> string" where
  "TrimRightSpace s =
     (case find (HasSuffix s) spaceRunes of
        None \<Rightarrow> s
      | Some r \<Rightarrow> TrimRightSpace (take (length s - length r) s))"
  by pat_completeness auto
termination
proof (relation "measure length")
  fix s r
  assume "find (HasSuffix s) spaceRunes = Some r"
  then have "r \<in> set spaceRunes" and "suffix r s"
    by (auto simp: find_Some_iff HasSuffix_def)
  then have "r \<noteq> []" and "s \<noteq> []"
    by (auto simp: spaceRunes_def)
  then show "(take (length s - length r) s, s) \<in> measure length"
    by simp
qed simp

declare TrimLeftSpace.simps [simp del] TrimRightSpace.simps [simp del]

definition TrimSpace :: "string \<Rightarrow> string" where
  "TrimSpace s = TrimRightSpace (TrimLeftSpace s)"

section \<open>The shortcut name codec\<close>

text \<open>U+FEFF, the prefix of a Bottom shortcut: bytes EF BB BF.\<close>

definition shortcutPrefix :: string where
  "shortcutPrefix = [CHR 0xEF, CHR 0xBB, CHR 0xBF]"

text \<open>U+2605 and a space, the prefix of the first generations: bytes E2 98 85 20.\<close>

definition legacyShortcutPrefix :: string where
  "legacyShortcutPrefix = [CHR 0xE2, CHR 0x98, CHR 0x85, CHR 0x20]"

definition bridgeEmuTag :: string where
  "bridgeEmuTag = ''SHORTCUT''"

datatype ShortcutPosition =
  ShortcutPositionBottom | ShortcutPositionTop | ShortcutPositionAlpha

definition topPrefix :: string where
  "topPrefix = ''0) ''"

definition shortcutMarkerFile :: string where
  "shortcutMarkerFile = ''.shortcut''"

definition extractTag :: "string \<Rightarrow> string" where
  "extractTag name =
     (let idx = LastIndexByte name CHR ''(''
      in if idx < 0 then ''''
         else let end = LastIndexByte name CHR '')''
              in if end \<le> idx then '''' else TrimSpace (slice name (idx + 1) end))"

definition extractDisplayName :: "string \<Rightarrow> string" where
  "extractDisplayName name =
     (let idx = LastIndexByte name CHR ''(''
      in if idx < 0 then name else TrimSpace (slice name 0 idx))"

definition buildFolderName :: "ShortcutPosition \<Rightarrow> string \<Rightarrow> string \<Rightarrow> string" where
  "buildFolderName pos displayName tag =
     (let base = displayName @ '' ('' @ tag @ '')''
      in case pos of
           ShortcutPositionTop \<Rightarrow> topPrefix @ base
         | ShortcutPositionAlpha \<Rightarrow> base
         | ShortcutPositionBottom \<Rightarrow> shortcutPrefix @ base)"

text \<open>
  The folder names of the generation before the invisible prefix (device.go): Bottom was
  \<^verbatim>\<open>fmt.Sprintf("%s %s", shortcutPrefix, base)\<close> with the star U+2605 as prefix.
\<close>

definition legacyBuildFolderName :: "string \<Rightarrow> string \<Rightarrow> string" where
  "legacyBuildFolderName displayName tag =
     [CHR 0xE2, CHR 0x98, CHR 0x85] @ '' '' @ (displayName @ '' ('' @ tag @ '')'')"

text \<open>
  The display name that \<^verbatim>\<open>scanShortcuts\<close> takes from a folder name when the marker file
  gives none: \<^verbatim>\<open>extractDisplayName\<close>, then the two \<^verbatim>\<open>TrimPrefix\<close> calls.
\<close>

definition displayFromFolderName :: "string \<Rightarrow> string" where
  "displayFromFolderName name =
     TrimPrefix (TrimPrefix (extractDisplayName name) shortcutPrefix) legacyShortcutPrefix"

text \<open>The display name and the tag that a scan reads from a folder name alone.\<close>

definition decodeFolderName :: "string \<Rightarrow> string \<times> string" where
  "decodeFolderName name = (displayFromFolderName name, extractTag name)"

section \<open>Go integers\<close>

text \<open>
  Go's \<^verbatim>\<open>int\<close> is a 64-bit two's complement integer on the devices this program is
  built for: a result wraps around, and \<^verbatim>\<open>/\<close> truncates towards zero.
\<close>

definition wrap64 :: "int \<Rightarrow> int" where
  "wrap64 i = (i + 2 ^ 63) mod 2 ^ 64 - 2 ^ 63"

definition quot :: "int \<Rightarrow> int \<Rightarrow> int" where
  "quot a b = wrap64 (sgn a * sgn b * (\<bar>a\<bar> div \<bar>b\<bar>))"

section \<open>Images\<close>

text \<open>
  An \<^verbatim>\<open>*image.NRGBA\<close> as \<^verbatim>\<open>image.NewNRGBA(image.Rect(0, 0, w, h))\<close> makes it: the
  rectangle starts at the origin, the stride is \<open>4 * w\<close> and \<^verbatim>\<open>Pix\<close> holds \<open>4 * w * h\<close>
  bytes, four (red, green, blue, alpha) for each pixel, row after row.
\<close>

type_synonym byte = "8 word"

record NRGBA =
  imgW :: int
  imgH :: int
  Pix :: "byte list"

definition NewNRGBA :: "int \<Rightarrow> int \<Rightarrow> NRGBA" where
  "NewNRGBA w h = \<lparr>imgW = w, imgH = h, Pix = replicate (nat (4 * w * h)) 0\<rparr>"

text \<open>What every image made by \<^verbatim>\<open>image.NewNRGBA\<close> satisfies; the allocation panics
  when the size of the buffer does not fit an \<^verbatim>\<open>int\<close>.\<close>

definition wfNRGBA :: "NRGBA \<Rightarrow> bool" where
  "wfNRGBA img =
     (0 \<le> imgW img \<and> 0 \<le> imgH img \<and> 4 * imgW img * imgH img < 2 ^ 63 \<and>
      length (Pix img) = nat (4 * imgW img * imgH img))"

definition PixOffset :: "NRGBA \<Rightarrow> int \<Rightarrow> int \<Rightarrow> int" where
  "PixOffset img x y = y * (4 * imgW img) + x * 4"

text \<open>The loop \<^verbatim>\<open>for i := 0; i < len(pix); i += 4\<close> that paints the canvas black.\<close>

fun fillBlack :: "byte list \<Rightarrow> byte list" where
  "fillBlack (r # g # b # a # rest) = 0x00 # 0x00 # 0x00 # 0xff # fillBlack rest"
| "fillBlack rest = rest"

text \<open>
  The distance of a coordinate past the corner edge along one axis, as the body of the
  loops of \<^verbatim>\<open>applyRoundedCorners\<close> computes it for \<^verbatim>\<open>dx\<close> and for \<^verbatim>\<open>dy\<close>.
\<close>

definition edgeDist :: "int \<Rightarrow> int \<Rightarrow> int \<Rightarrow> int" where
  "edgeDist radius n i =
     (if i < radius then radius - i
      else if n - radius \<le> i then i - (n - radius - 1)
      else 0)"

definition outsideCorner :: "int \<Rightarrow> int \<Rightarrow> int \<Rightarrow> int \<Rightarrow> int \<Rightarrow> bool" where
  "outsideCorner radius w h x y =
     (let dx = edgeDist radius w x; dy = edgeDist radius h y
      in wrap64 (radius * radius) < wrap64 (wrap64 (dx * dx) + wrap64 (dy * dy)))"

definition clearPixel :: "int \<Rightarrow> byte list \<Rightarrow> byte list" where
  "clearPixel off pix =
     pix[nat off := 0, nat off + 1 := 0, nat off + 2 := 0, nat off + 3 := 0]"

definition maskPixel :: "int \<Rightarrow> int \<Rightarrow> int \<Rightarrow> NRGBA \<Rightarrow> NRGBA" where
  "maskPixel radius y x img =
     (if outsideCorner radius (imgW img) (imgH img) x y
      then img\<lparr>Pix := clearPixel (PixOffset img x y) (Pix img)\<rparr>
      else img)"

definition applyRoundedCorners :: "NRGBA \<Rightarrow> int \<Rightarrow> NRGBA" where
  "applyRoundedCorners img radius =
     (let w = imgW img; h = imgH img
      in if radius \<le> 0 \<or> w = 0 \<or> h = 0 then img
         else fold (\<lambda>y. fold (maskPixel radius y) (map int [0..<nat w]))
                (map int [0..<nat h]) img)"

definition thumbnailFit :: "int \<Rightarrow> int \<Rightarrow> int \<Rightarrow> int \<Rightarrow> int \<times> int" where
  "thumbnailFit srcW srcH maxW maxH =
     (if srcW = 0 \<or> srcH = 0 then (maxW, maxH)
      else let newW = maxW; newH = quot (wrap64 (srcH * maxW)) srcW
           in if maxH < newH then (quot (wrap64 (srcW * maxH)) srcH, maxH)
              else (newW, newH))"

section \<open>The file system\<close>

text \<open>
  A path is the list of its components below the root, so \<^verbatim>\<open>/mnt/SDCARD/Roms\<close> is
  \<open>[''mnt'', ''SDCARD'', ''Roms'']\<close>. \<^verbatim>\<open>filepath.Join(dir, name)\<close> with a name that is one
  plain component (not empty, no separator, neither \<^verbatim>\<open>.\<close> nor \<^verbatim>\<open>..\<close>, as every name read
  from a directory is) appends it, and \<^verbatim>\<open>filepath.Base\<close> returns the last component.
  The tree lists every directory and regular file; \<open>denied\<close> lists the paths at which the
  system refuses to create or write (no permission, read-only medium).
\<close>

type_synonym path = "string list"

datatype node = Dir | File string

datatype errno = ENOENT | ENOTDIR | EISDIR | EACCES

record fsys =
  tree :: "(path \<times> node) list"
  denied :: "path list"

definition lookupNode :: "fsys \<Rightarrow> path \<Rightarrow> node option" where
  "lookupNode fs p = (if p = [] then Some Dir else map_of (tree fs) p)"

definition putNode :: "fsys \<Rightarrow> path \<Rightarrow> node \<Rightarrow> fsys" where
  "putNode fs p n = fs\<lparr>tree := AList.update p n (tree fs)\<rparr>"

definition Base :: "path \<Rightarrow> string" where
  "Base p = (if p = [] then ''/'' else last p)"

definition Stat :: "fsys \<Rightarrow> path \<Rightarrow> errno + node" where
  "Stat fs p = (case lookupNode fs p of None \<Rightarrow> Inl ENOENT | Some n \<Rightarrow> Inr n)"

definition ReadFile :: "fsys \<Rightarrow> path \<Rightarrow> errno + string" where
  "ReadFile fs p =
     (case lookupNode fs p of
        None \<Rightarrow> Inl ENOENT
      | Some Dir \<Rightarrow> Inl EISDIR
      | Some (File data) \<Rightarrow> Inr data)"

text \<open>\<^verbatim>\<open>os.ReadDir\<close>: the entries of a directory, sorted by file name.\<close>

definition ReadDir :: "fsys \<Rightarrow> path \<Rightarrow> errno + (string \<times> node) list" where
  "ReadDir fs p =
     (case lookupNode fs p of
        None \<Rightarrow> Inl ENOENT
      | Some (File data) \<Rightarrow> Inl ENOTDIR
      | Some Dir \<Rightarrow>
          Inr (sort_key fst
                 (map (\<lambda>(q, n). (last q, n))
                    (filter (\<lambda>(q, n). q \<noteq> [] \<and> butlast q = p) (tree fs)))))"

text \<open>
  \<^verbatim>\<open>os.MkdirAll\<close> creates the missing parents first; a failure leaves what was created
  before it. The result is the new state and the error, \<open>None\<close> for \<^verbatim>\<open>nil\<close>.
\<close>

function MkdirAll :: "fsys \<Rightarrow> path \<Rightarrow> fsys \<times> errno option" where
  "MkdirAll fs p =
     (case lookupNode fs p of
        Some Dir \<Rightarrow> (fs, None)
      | Some (File data) \<Rightarrow> (fs, Some ENOTDIR)
      | None \<Rightarrow>
          (case MkdirAll fs (butlast p) of
             (fs', Some e) \<Rightarrow> (fs', Some e)
           | (fs', None) \<Rightarrow>
               if p \<in> set (denied fs') then (fs', Some EACCES)
               else (putNode fs' p Dir, None)))"
  by pat_completeness auto
termination
proof (relation "measure (\<lambda>(fs, p). length p)")
  fix fs :: fsys and p :: path
  assume "lookupNode fs p = None"
  then have "p \<noteq> []" by (auto simp: lookupNode_def)
  then show "((fs, butlast p), (fs, p)) \<in> measure (\<lambda>(fs, p). length p)" by simp
qed simp

declare MkdirAll.simps [simp del]

text \<open>\<^verbatim>\<open>os.WriteFile\<close> (and \<^verbatim>\<open>os.Create\<close> followed by the write of the whole content).\<close>

definition WriteFile :: "fsys \<Rightarrow> path \<Rightarrow> string \<Rightarrow> fsys \<times> errno option" where
  "WriteFile fs p data =
     (case lookupNode fs p of
        Some Dir \<Rightarrow> (fs, Some EISDIR)
      | _ \<Rightarrow>
          (case lookupNode fs (butlast p) of
             None \<Rightarrow> (fs, Some ENOENT)
           | Some (File d) \<Rightarrow> (fs, Some ENOTDIR)
           | Some Dir \<Rightarrow>
               if p \<in> set (denied fs) then (fs, Some EACCES)
               else (putNode fs p (File data), None)))"

text \<open>A Go \<^verbatim>\<open>error\<close>: the error of a system call, or \<^verbatim>\<open>fmt.Errorf("...: %w", err)\<close>.\<close>

datatype error = PathError errno | DecodeError | Wrapped string error

definition ok :: "'e + 'a \<Rightarrow> bool" where
  "ok r = (case r of Inl e \<Rightarrow> False | Inr v \<Rightarrow> True)"

section \<open>The environment and the libraries\<close>

datatype Platform = PlatformMac | PlatformTG5040 | PlatformTG5050

definition platformString :: "Platform \<Rightarrow> string" where
  "platformString p =
     (case p of PlatformMac \<Rightarrow> ''mac'' | PlatformTG5040 \<Rightarrow> ''tg5040''
      | PlatformTG5050 \<Rightarrow> ''tg5050'')"

text \<open>
  The globals \<^verbatim>\<open>platform\<close> and \<^verbatim>\<open>isBrick\<close> that \<^verbatim>\<open>main\<close> sets, the working directory
  (\<^verbatim>\<open>os.Getwd\<close>) and the variable \<^verbatim>\<open>SDCARD_PATH\<close> (\<open>None\<close> when unset or empty).
\<close>

record env =
  platform :: Platform
  isBrick :: bool
  cwd :: path
  sdcardPathEnv :: "path option"

definition romsPath :: path where
  "romsPath = [''mnt'', ''SDCARD'', ''Roms'']"

definition toolsPath :: path where
  "toolsPath = [''mnt'', ''SDCARD'', ''Tools'']"

definition emusUserPath :: path where
  "emusUserPath = [''mnt'', ''SDCARD'', ''Emus'']"

definition getBasePaths :: "env \<Rightarrow> path \<times> path \<times> path" where
  "getBasePaths e =
     (if platform e = PlatformMac
      then let mock = cwd e @ [''mock_sdcard'']
           in (mock @ [''Roms''], mock @ [''Tools'', ''tg5040''], mock @ [''Emus'', ''tg5040''])
      else (romsPath, toolsPath @ [platformString (platform e)],
            emusUserPath @ [platformString (platform e)]))"

definition screenDimensions :: "env \<Rightarrow> int \<times> int" where
  "screenDimensions e = (if isBrick e then (1024, 768) else (1280, 720))"

definition globalBgPath :: "env \<Rightarrow> path" where
  "globalBgPath e =
     (case sdcardPathEnv e of
        None \<Rightarrow>
          if platform e = PlatformMac then cwd e @ [''mock_sdcard'', ''bg.png'']
          else [''mnt'', ''SDCARD'', ''bg.png'']
      | Some sdcard \<Rightarrow> sdcard @ [''bg.png''])"

datatype drawOp = Over | Src

text \<open>
  What the program takes from libraries outside the repository, as parameters:
  \<^verbatim>\<open>strings.ToLower\<close> (the Unicode case tables), the PNG codec of \<^verbatim>\<open>image/png\<close>, the
  floating-point computations of \<^verbatim>\<open>generateArtworkBg\<close> (\<open>coverSize screenW screenH srcW srcH\<close>
  is its \<^verbatim>\<open>(newW, newH)\<close>, \<open>artBox screenW screenH\<close> its \<^verbatim>\<open>(maxW, maxH)\<close>), and
  \<^verbatim>\<open>BiLinear.Scale\<close> and \<^verbatim>\<open>Draw\<close> of \<^verbatim>\<open>golang.org/x/image/draw\<close>, which return the
  destination image they have drawn into.
\<close>

record golib =
  ToLower :: "string \<Rightarrow> string"
  pngDecode :: "string \<Rightarrow> NRGBA option"
  pngEncode :: "NRGBA \<Rightarrow> string"
  coverSize :: "int \<Rightarrow> int \<Rightarrow> int \<Rightarrow> int \<Rightarrow> int \<times> int"
  artBox :: "int \<Rightarrow> int \<Rightarrow> int \<times> int"
  biLinearScale :: "NRGBA \<Rightarrow> NRGBA \<Rightarrow> drawOp \<Rightarrow> NRGBA"
  drawImage :: "NRGBA \<Rightarrow> int \<times> int \<times> int \<times> int \<Rightarrow> NRGBA \<Rightarrow> int \<times> int \<Rightarrow> drawOp \<Rightarrow> NRGBA"

section \<open>Data types\<close>

record ConsoleDir =
  Name :: string
  Tag :: string
  Path :: path
  Display :: string
  IsDisabled :: bool

record ROMFile =
  Name :: string
  Path :: path
  Display :: string
  IsMultiDisc :: bool
  IsCueFolder :: bool
  IsDisabled :: bool

record ToolPak =
  Name :: string
  Path :: path
  Display :: string

record Shortcut =
  Name :: string
  Tag :: string
  Display :: string
  Path :: path
  IsTool :: bool
  TargetPath :: string

record AppSettings =
  CopyArtwork :: bool
  UseGlobalBg :: bool
  ForceBlackBg :: bool
  ShowHidden :: bool

section \<open>String utilities\<close>

definition isHidden :: "string \<Rightarrow> bool" where
  "isHidden name =
     (HasPrefix name ''.'' \<or> HasSuffix name ''.disabled'' \<or> name = ''map.txt'')"

definition isMacDotfile :: "string \<Rightarrow> bool" where
  "isMacDotfile name = (if \<not> HasPrefix name ''.'' then False else extractTag name = [])"

definition dirHasVisibleContent :: "fsys \<Rightarrow> path \<Rightarrow> bool" where
  "dirHasVisibleContent fs p =
     (case ReadDir fs p of
        Inl err \<Rightarrow> False
      | Inr entries \<Rightarrow> list_ex (\<lambda>e. \<not> isHidden (fst e)) entries)"

definition isShortcutFolder :: "fsys \<Rightarrow> path \<Rightarrow> bool" where
  "isShortcutFolder fs folderPath =
     (let name = Base folderPath
      in if HasPrefix name shortcutPrefix \<or> HasPrefix name legacyShortcutPrefix then True
         else ok (Stat fs (folderPath @ [shortcutMarkerFile])))"

text \<open>\<^verbatim>\<open>filepath.Ext\<close>: the suffix from the last dot of the last element, or nothing.\<close>

definition Ext :: "string \<Rightarrow> string" where
  "Ext name =
     (let i = LastIndexByte name CHR ''.''
      in if i < 0 \<or> i < LastIndexByte name CHR ''/'' then [] else drop (nat i) name)"

definition stripExtension :: "string \<Rightarrow> string" where
  "stripExtension name =
     (let ext = Ext name
      in if 2 \<le> length ext \<and> length ext \<le> 5 then TrimSuffix name ext else name)"

definition readShortcutMarker :: "fsys \<Rightarrow> path \<Rightarrow> string" where
  "readShortcutMarker fs folderPath =
     (case ReadFile fs (folderPath @ [shortcutMarkerFile]) of
        Inl err \<Rightarrow> []
      | Inr data \<Rightarrow> TrimSpace data)"

definition writeShortcutMarker :: "fsys \<Rightarrow> path \<Rightarrow> string \<Rightarrow> fsys \<times> errno option" where
  "writeShortcutMarker fs folderPath displayName =
     WriteFile fs (folderPath @ [shortcutMarkerFile]) displayName"

definition shortcutExists :: "env \<Rightarrow> fsys \<Rightarrow> string \<Rightarrow> string \<Rightarrow> bool" where
  "shortcutExists e fs displayName tag =
     (let (romsDir, toolsDir, emusDir) = getBasePaths e
      in list_ex (\<lambda>pos. ok (Stat fs (romsDir @ [buildFolderName pos displayName tag])))
           [ShortcutPositionBottom, ShortcutPositionTop, ShortcutPositionAlpha])"

text \<open>
  \<^verbatim>\<open>filepath.Join(dir, rel)\<close> where \<^verbatim>\<open>rel\<close> is the text of a pointer file: the elements
  of \<^verbatim>\<open>rel\<close> are applied to the directory one by one, as \<^verbatim>\<open>filepath.Clean\<close> resolves
  them, and the result is written as an absolute path.
\<close>

fun splitPath :: "string \<Rightarrow> string list" where
  "splitPath [] = [[]]"
| "splitPath (c # cs) =
     (if c = CHR ''/'' then [] # splitPath cs
      else case splitPath cs of [] \<Rightarrow> [[c]] | x # xs \<Rightarrow> (c # x) # xs)"

definition cleanStep :: "string \<Rightarrow> path \<Rightarrow> path" where
  "cleanStep element p =
     (if element = [] \<or> element = ''.'' then p
      else if element = ''..'' then butlast p
      else p @ [element])"

definition pathString :: "path \<Rightarrow> string" where
  "pathString p = (if p = [] then ''/'' else concat (map (\<lambda>c. ''/'' @ c) p))"

definition JoinRel :: "path \<Rightarrow> string \<Rightarrow> string" where
  "JoinRel dir rel = pathString (fold cleanStep (splitPath rel) dir)"

section \<open>Scanning functions\<close>

text \<open>
  Each scan reads a directory, keeps the entries its loop does not skip (\<open>None\<close> is the
  \<^verbatim>\<open>continue\<close>), and sorts them with \<^verbatim>\<open>sort.Slice\<close> on the lower-cased display name.
  \<^verbatim>\<open>sort.Slice\<close> is not stable: the order it gives entries with equal keys is not
  specified, and the model takes the one of insertion sort.
\<close>

definition consoleOfEntry :: "fsys \<Rightarrow> path \<Rightarrow> bool \<Rightarrow> string \<times> node \<Rightarrow> ConsoleDir option" where
  "consoleOfEntry fs romsDir showHidden e =
     (let name = fst e; fullPath = romsDir @ [name]
      in if snd e \<noteq> Dir then None
         else if isShortcutFolder fs fullPath then None
         else if (if \<not> showHidden
                  then isHidden name \<or> \<not> dirHasVisibleContent fs fullPath
                  else isMacDotfile name \<or> name = ''map.txt'') then None
         else let isDisabled = HasSuffix name ''.disabled'';
                  baseName = (if isDisabled then TrimSuffix name ''.disabled'' else name);
                  tag = extractTag baseName
              in if tag = [] then None
                 else Some \<lparr>ConsoleDir.Name = name, Tag = tag, Path = fullPath,
                            Display = extractDisplayName baseName, IsDisabled = isDisabled\<rparr>)"

definition scanConsoleDirs :: "golib \<Rightarrow> env \<Rightarrow> fsys \<Rightarrow> bool \<Rightarrow> error + ConsoleDir list" where
  "scanConsoleDirs lib e fs showHidden =
     (let (romsDir, toolsDir, emusDir) = getBasePaths e
      in case ReadDir fs romsDir of
           Inl err \<Rightarrow> Inl (Wrapped ''reading roms dir'' (PathError err))
         | Inr entries \<Rightarrow>
             Inr (sort_key (\<lambda>c. ToLower lib (ConsoleDir.Display c))
                    (List.map_filter (consoleOfEntry fs romsDir showHidden) entries)))"

definition romOfEntry :: "fsys \<Rightarrow> path \<Rightarrow> bool \<Rightarrow> string \<times> node \<Rightarrow> ROMFile option" where
  "romOfEntry fs consoleDir showHidden e =
     (let name = fst e
      in if (if \<not> showHidden then isHidden name
             else HasPrefix name ''.'' \<or> name = ''map.txt'') then None
         else let isDisabled = HasSuffix name ''.disabled'';
                  baseName = (if isDisabled then TrimSuffix name ''.disabled'' else name)
              in if snd e = Dir
                 then let dirPath = consoleDir @ [name]
                      in if ok (Stat fs (dirPath @ [baseName @ ''.m3u'']))
                         then Some \<lparr>ROMFile.Name = name, Path = dirPath, Display = baseName,
                                    IsMultiDisc = True, IsCueFolder = False,
                                    IsDisabled = isDisabled\<rparr>
                         else if ok (Stat fs (dirPath @ [baseName @ ''.cue'']))
                         then Some \<lparr>ROMFile.Name = name, Path = dirPath, Display = baseName,
                                    IsMultiDisc = False, IsCueFolder = True,
                                    IsDisabled = isDisabled\<rparr>
                         else None
                 else Some \<lparr>ROMFile.Name = name, Path = consoleDir @ [name],
                            Display = stripExtension baseName,
                            IsMultiDisc = False, IsCueFolder = False,
                            IsDisabled = isDisabled\<rparr>)"

definition scanROMs :: "golib \<Rightarrow> fsys \<Rightarrow> path \<Rightarrow> bool \<Rightarrow> error + ROMFile list" where
  "scanROMs lib fs consoleDir showHidden =
     (case ReadDir fs consoleDir of
        Inl err \<Rightarrow> Inl (Wrapped ''reading rom dir'' (PathError err))
      | Inr entries \<Rightarrow>
          Inr (sort_key (\<lambda>r. ToLower lib (ROMFile.Display r))
                 (List.map_filter (romOfEntry fs consoleDir showHidden) entries)))"

definition toolOfEntry :: "path \<Rightarrow> bool \<Rightarrow> string \<times> node \<Rightarrow> ToolPak option" where
  "toolOfEntry toolsDir showHidden e =
     (let name = fst e
      in if snd e \<noteq> Dir then None
         else if \<not> showHidden \<and> isHidden name then None
         else if showHidden \<and> HasPrefix name ''.'' then None
         else let isDisabled = HasSuffix name ''.pak.disabled''
              in if \<not> HasSuffix name ''.pak'' \<and> \<not> isDisabled then None
                 else let baseName =
                            (if isDisabled
                             then TrimSuffix (TrimSuffix name ''.disabled'') ''.pak''
                             else TrimSuffix name ''.pak'');
                          display = (if isDisabled then baseName @ ''  [disabled]'' else baseName)
                      in Some \<lparr>ToolPak.Name = baseName, Path = toolsDir @ [name],
                                Display = display\<rparr>)"

definition scanTools :: "golib \<Rightarrow> env \<Rightarrow> fsys \<Rightarrow> bool \<Rightarrow> error + ToolPak list" where
  "scanTools lib e fs showHidden =
     (let (romsDir, toolsDir, emusDir) = getBasePaths e
      in case ReadDir fs toolsDir of
           Inl err \<Rightarrow> Inl (Wrapped ''reading tools dir'' (PathError err))
         | Inr entries \<Rightarrow>
             Inr (sort_key (\<lambda>t. ToLower lib (ToolPak.Display t))
                    (List.map_filter (toolOfEntry toolsDir showHidden) entries)))"

definition shortcutOfEntry :: "fsys \<Rightarrow> path \<Rightarrow> string \<times> node \<Rightarrow> Shortcut option" where
  "shortcutOfEntry fs romsDir e =
     (let fullPath = romsDir @ [fst e]
      in if snd e \<noteq> Dir then None
         else if \<not> isShortcutFolder fs fullPath then None
         else let name = fst e;
                  tag = extractTag name;
                  isTool = (tag = bridgeEmuTag);
                  marker = readShortcutMarker fs fullPath;
                  display = (if marker = [] then displayFromFolderName name else marker);
                  target =
                    (if isTool
                     then case ReadFile fs (fullPath @ [''target'']) of
                            Inl err \<Rightarrow> []
                          | Inr data \<Rightarrow> TrimSpace data
                     else case ReadFile fs (fullPath @ [name @ ''.m3u'']) of
                            Inl err \<Rightarrow> []
                          | Inr data \<Rightarrow> JoinRel fullPath (TrimSpace data))
              in Some \<lparr>Shortcut.Name = name, Tag = tag, Display = display, Path = fullPath,
                        IsTool = isTool, TargetPath = target\<rparr>)"

definition scanShortcuts :: "golib \<Rightarrow> env \<Rightarrow> fsys \<Rightarrow> error + Shortcut list" where
  "scanShortcuts lib e fs =
     (let (romsDir, toolsDir, emusDir) = getBasePaths e
      in case ReadDir fs romsDir of
           Inl err \<Rightarrow> Inl (Wrapped ''reading roms dir'' (PathError err))
         | Inr entries \<Rightarrow>
             Inr (sort_key (\<lambda>sc. ToLower lib (Shortcut.Display sc))
                    (List.map_filter (shortcutOfEntry fs romsDir) entries)))"

section \<open>Artwork\<close>

definition loadPNGImage :: "golib \<Rightarrow> fsys \<Rightarrow> path \<Rightarrow> error + NRGBA" where
  "loadPNGImage lib fs p =
     (case ReadFile fs p of
        Inl err \<Rightarrow> Inl (PathError err)
      | Inr data \<Rightarrow>
          (case pngDecode lib data of None \<Rightarrow> Inl DecodeError | Some img \<Rightarrow> Inr img))"

text \<open>The new canvas, filled with opaque black.\<close>

definition blackCanvas :: "int \<Rightarrow> int \<Rightarrow> NRGBA" where
  "blackCanvas w h = (let canvas = NewNRGBA w h in canvas\<lparr>Pix := fillBlack (Pix canvas)\<rparr>)"

text \<open>Layer 1: the global wallpaper scaled to cover the canvas, when it can be loaded.\<close>

definition wallpaperLayer :: "golib \<Rightarrow> env \<Rightarrow> fsys \<Rightarrow> NRGBA \<Rightarrow> NRGBA" where
  "wallpaperLayer lib e fs canvas =
     (let (screenW, screenH) = screenDimensions e
      in case loadPNGImage lib fs (globalBgPath e) of
           Inl err \<Rightarrow> canvas
         | Inr bgImg \<Rightarrow>
             (let srcW = imgW bgImg; srcH = imgH bgImg;
                  (newW, newH) = coverSize lib screenW screenH srcW srcH;
                  scaledBg = biLinearScale lib (NewNRGBA newW newH) bgImg Src;
                  offX = quot (wrap64 (newW - screenW)) 2;
                  offY = quot (wrap64 (newH - screenH)) 2
              in drawImage lib canvas (0, 0, imgW canvas, imgH canvas) scaledBg (offX, offY) Src))"

text \<open>Layer 2: the art, fitted, with rounded corners, right-aligned and centred.\<close>

definition artLayer :: "golib \<Rightarrow> env \<Rightarrow> NRGBA \<Rightarrow> NRGBA \<Rightarrow> NRGBA" where
  "artLayer lib e artImg canvas =
     (let (screenW, screenH) = screenDimensions e;
          (maxW, maxH) = artBox lib screenW screenH;
          (artW, artH) = thumbnailFit (imgW artImg) (imgH artImg) maxW maxH;
          scaledArt = applyRoundedCorners (biLinearScale lib (NewNRGBA artW artH) artImg Over) 40;
          rightMargin = 30;
          targetX = max 0 (wrap64 (wrap64 (screenW - artW) - rightMargin));
          centerY = wrap64 (quot screenH 2 - quot artH 2)
      in drawImage lib canvas
           (targetX, centerY, wrap64 (targetX + artW), wrap64 (centerY + artH))
           scaledArt (0, 0) Over)"

text \<open>The canvas that \<^verbatim>\<open>generateArtworkBg\<close> has composed when it saves it.\<close>

definition composeCanvas :: "golib \<Rightarrow> env \<Rightarrow> fsys \<Rightarrow> NRGBA option \<Rightarrow> bool \<Rightarrow> NRGBA" where
  "composeCanvas lib e fs artImg useGlobalBg =
     (let (screenW, screenH) = screenDimensions e;
          canvas0 = blackCanvas screenW screenH;
          canvas1 = (if useGlobalBg then wallpaperLayer lib e fs canvas0 else canvas0)
      in case artImg of None \<Rightarrow> canvas1 | Some img \<Rightarrow> artLayer lib e img canvas1)"

text \<open>
  \<^verbatim>\<open>generateArtworkBg\<close> returns nothing; its effect is the new state of the file system.
  The first \<open>case\<close> is the loading of the art: \<open>None\<close> stands for the two early returns,
  \<open>Some None\<close> for a \<^verbatim>\<open>nil\<close> image. An error of \<^verbatim>\<open>os.MkdirAll\<close> or \<^verbatim>\<open>os.Create\<close> is
  logged and ends the function.
\<close>

definition generateArtworkBg ::
    "golib \<Rightarrow> env \<Rightarrow> path \<Rightarrow> path \<Rightarrow> bool \<Rightarrow> bool \<Rightarrow> fsys \<Rightarrow> fsys" where
  "generateArtworkBg lib e artSrcPath destFolder useGlobalBg forceBlack fs =
     (case (if ok (Stat fs artSrcPath)
            then (case loadPNGImage lib fs artSrcPath of
                    Inl err \<Rightarrow> None
                  | Inr img \<Rightarrow> Some (Some img))
            else if \<not> forceBlack then None else Some None) of
        None \<Rightarrow> fs
      | Some artImg \<Rightarrow>
          (let canvas = composeCanvas lib e fs artImg useGlobalBg;
               mediaDir = destFolder @ [''.media'']
           in case MkdirAll fs mediaDir of
                (fs1, Some err) \<Rightarrow> fs1
              | (fs1, None) \<Rightarrow>
                  fst (WriteFile fs1 (mediaDir @ [''bg.png'']) (pngEncode lib canvas))))"

section \<open>Shortcut creation\<close>

text \<open>
  The creation functions return a Go \<^verbatim>\<open>error\<close>; the model returns the new state of the
  file system with it, \<open>None\<close> for \<^verbatim>\<open>nil\<close>. The log lines are left out.
\<close>

text \<open>The \<^verbatim>\<open>switch\<close> of \<^verbatim>\<open>createROMShortcut\<close> that sets \<^verbatim>\<open>relPath\<close>.\<close>

definition relPath :: "string \<Rightarrow> ROMFile \<Rightarrow> string" where
  "relPath consoleDirName rom =
     (if IsMultiDisc rom
      then ''../'' @ consoleDirName @ ''/'' @ ROMFile.Name rom @ ''/'' @ ROMFile.Name rom @ ''.m3u''
      else if IsCueFolder rom
      then ''../'' @ consoleDirName @ ''/'' @ ROMFile.Name rom @ ''/'' @ ROMFile.Name rom @ ''.cue''
      else ''../'' @ consoleDirName @ ''/'' @ ROMFile.Name rom)"

definition createROMShortcut ::
    "golib \<Rightarrow> env \<Rightarrow> string \<Rightarrow> string \<Rightarrow> string \<Rightarrow> ROMFile \<Rightarrow> ShortcutPosition \<Rightarrow> AppSettings
     \<Rightarrow> fsys \<Rightarrow> fsys \<times> error option" where
  "createROMShortcut lib e displayName tag consoleDirName rom pos settings fs =
     (let (romsDir, toolsDir, emusDir) = getBasePaths e;
          folderName = buildFolderName pos displayName tag;
          folderPath = romsDir @ [folderName]
      in case MkdirAll fs folderPath of
           (fs1, Some err) \<Rightarrow> (fs1, Some (Wrapped ''creating shortcut dir'' (PathError err)))
         | (fs1, None) \<Rightarrow>
             (let m3uPath = folderPath @ [folderName @ ''.m3u'']
              in case WriteFile fs1 m3uPath (relPath consoleDirName rom) of
                   (fs2, Some err) \<Rightarrow> (fs2, Some (Wrapped ''writing m3u'' (PathError err)))
                 | (fs2, None) \<Rightarrow>
                     (let fs3 = fst (writeShortcutMarker fs2 folderPath displayName);
                          fs4 = (if CopyArtwork settings
                                 then generateArtworkBg lib e
                                        (romsDir @ [consoleDirName, ''.media'', displayName @ ''.png''])
                                        folderPath (UseGlobalBg settings) (ForceBlackBg settings) fs3
                                 else fs3)
                      in (fs4, None))))"

definition createToolShortcut ::
    "golib \<Rightarrow> env \<Rightarrow> string \<Rightarrow> string \<Rightarrow> ShortcutPosition \<Rightarrow> AppSettings
     \<Rightarrow> fsys \<Rightarrow> fsys \<times> error option" where
  "createToolShortcut lib e displayName pakPath pos settings fs =
     (let (romsDir, toolsDir, emusDir) = getBasePaths e;
          folderName = buildFolderName pos displayName bridgeEmuTag;
          folderPath = romsDir @ [folderName]
      in case MkdirAll fs folderPath of
           (fs1, Some err) \<Rightarrow> (fs1, Some (Wrapped ''creating shortcut dir'' (PathError err)))
         | (fs1, None) \<Rightarrow>
             (case WriteFile fs1 (folderPath @ [''target'']) pakPath of
                (fs2, Some err) \<Rightarrow> (fs2, Some (Wrapped ''writing target'' (PathError err)))
              | (fs2, None) \<Rightarrow>
                  (case WriteFile fs2 (folderPath @ [folderName @ ''.m3u'']) ''target'' of
                     (fs3, Some err) \<Rightarrow> (fs3, Some (Wrapped ''writing m3u'' (PathError err)))
                   | (fs3, None) \<Rightarrow>
                       (let fs4 = fst (writeShortcutMarker fs3 folderPath displayName);
                            fs5 = (if CopyArtwork settings
                                   then generateArtworkBg lib e
                                          (toolsDir @ [''.media'', displayName @ ''.png''])
                                          folderPath (UseGlobalBg settings) (ForceBlackBg settings) fs4
                                   else fs4)
                        in (fs5, None)))))"

section \<open>Sample values\<close>

text \<open>
  Values on which the functions are evaluated in the examples below. \<open>sampleLib\<close> is one
  instance of the library parameters. It lower-cases the ASCII letters, as
  \<^verbatim>\<open>strings.ToLower\<close> does on ASCII text. Its image codec writes the size and the pixel
  bytes of an image and reads them back. Its cover size is the exact quotient, without the
  rounding of \<^verbatim>\<open>float64\<close>, and its art box is 45 and 60 percent of the screen. Its
  scaling and drawing functions fill the destination with the first pixel of the source:
  that is what scaling and drawing give when a source of one opaque colour covers the
  whole destination, which is how the examples use them.
\<close>

definition lowerASCII :: "char \<Rightarrow> char" where
  "lowerASCII c =
     (if CHR ''A'' \<le> c \<and> c \<le> CHR ''Z'' then char_of (of_char c + (32::nat)) else c)"

definition rawBytes :: "NRGBA \<Rightarrow> string" where
  "rawBytes img =
     char_of (imgW img) # char_of (imgW img div 256) #
     char_of (imgH img) # char_of (imgH img div 256) # map (\<lambda>b. char_of (unat b)) (Pix img)"

definition rawImage :: "string \<Rightarrow> NRGBA option" where
  "rawImage data =
     (case data of
        w0 # w1 # h0 # h1 # rest \<Rightarrow>
          (let w = int (of_char w0) + 256 * int (of_char w1);
               h = int (of_char h0) + 256 * int (of_char h1)
           in if length rest = nat (4 * w * h)
              then Some \<lparr>imgW = w, imgH = h, Pix = map (\<lambda>c. of_nat (of_char c)) rest\<rparr>
              else None)
      | _ \<Rightarrow> None)"

definition fillWith :: "byte list \<Rightarrow> NRGBA \<Rightarrow> NRGBA" where
  "fillWith px dst = dst\<lparr>Pix := concat (replicate (nat (imgW dst * imgH dst)) px)\<rparr>"

definition sampleLib :: golib where
  "sampleLib =
     \<lparr>ToLower = map lowerASCII,
      pngDecode = rawImage,
      pngEncode = rawBytes,
      coverSize = (\<lambda>screenW screenH srcW srcH.
                    if screenH * srcW \<le> screenW * srcH
                    then (screenW, srcH * screenW div srcW)
                    else (srcW * screenH div srcH, screenH)),
      artBox = (\<lambda>screenW screenH. (screenW * 45 div 100, screenH * 60 div 100)),
      biLinearScale = (\<lambda>dst src op. fillWith (take 4 (Pix src)) dst),
      drawImage = (\<lambda>dst r src sp op. fillWith (take 4 (Pix src)) dst)\<rparr>"

definition smartPro :: env where
  "smartPro = \<lparr>platform = PlatformTG5040, isBrick = False, cwd = [], sdcardPathEnv = None\<rparr>"

definition brick :: env where
  "brick = \<lparr>platform = PlatformTG5040, isBrick = True, cwd = [], sdcardPathEnv = None\<rparr>"

definition noArtwork :: AppSettings where
  "noArtwork =
     \<lparr>CopyArtwork = False, UseGlobalBg = True, ForceBlackBg = False, ShowHidden = False\<rparr>"

definition battletoads :: ROMFile where
  "battletoads =
     \<lparr>ROMFile.Name = ''Battletoads (World).md'',
      Path = romsPath @ [''Sega Genesis (MD)'', ''Battletoads (World).md''],
      Display = ''Battletoads (World)'',
      IsMultiDisc = False, IsCueFolder = False, IsDisabled = False\<rparr>"

text \<open>A card with one console folder and one game.\<close>

definition card :: fsys where
  "card =
     \<lparr>tree =
        [([''mnt''], Dir), ([''mnt'', ''SDCARD''], Dir), (romsPath, Dir),
         (romsPath @ [''Sega Genesis (MD)''], Dir),
         (romsPath @ [''Sega Genesis (MD)'', ''Battletoads (World).md''], File ''rom'')],
      denied = []\<rparr>"

text \<open>The card after the Bottom shortcut Battletoads (MD) has been created on it.\<close>

definition cardShortcut :: fsys where
  "cardShortcut =
     fst (createROMShortcut sampleLib smartPro ''Battletoads'' ''MD'' ''Sega Genesis (MD)''
            battletoads ShortcutPositionBottom noArtwork card)"

text \<open>The same card where a directory sits at the place of the marker file of the Bottom
  shortcut Battletoads (MD), so that the marker file cannot be written.\<close>

definition cardMarkerDir :: fsys where
  "cardMarkerDir =
     \<lparr>tree = tree card @
        [(romsPath @ [buildFolderName ShortcutPositionBottom ''Battletoads'' ''MD''], Dir),
         (romsPath @ [buildFolderName ShortcutPositionBottom ''Battletoads'' ''MD'',
                      shortcutMarkerFile], Dir)],
      denied = []\<rparr>"

text \<open>The same card where regular files sit at the places of the folder of the Top shortcut
  and of the pointer file of the Alphabetical shortcut.\<close>

definition cardBlocked :: fsys where
  "cardBlocked =
     \<lparr>tree = tree card @
        [(romsPath @ [buildFolderName ShortcutPositionTop ''Battletoads'' ''MD''], File ''x''),
         (romsPath @ [buildFolderName ShortcutPositionTop ''Files'' bridgeEmuTag], File ''x''),
         (romsPath @ [buildFolderName ShortcutPositionAlpha ''Battletoads'' ''MD''], Dir),
         (romsPath @ [buildFolderName ShortcutPositionAlpha ''Battletoads'' ''MD'',
                      buildFolderName ShortcutPositionAlpha ''Battletoads'' ''MD'' @ ''.m3u''], Dir),
         (romsPath @ [buildFolderName ShortcutPositionAlpha ''Files'' bridgeEmuTag], Dir),
         (romsPath @ [buildFolderName ShortcutPositionAlpha ''Files'' bridgeEmuTag,
                      buildFolderName ShortcutPositionAlpha ''Files'' bridgeEmuTag @ ''.m3u''], Dir),
         (romsPath @ [buildFolderName ShortcutPositionBottom ''Files'' bridgeEmuTag], Dir),
         (romsPath @ [buildFolderName ShortcutPositionBottom ''Files'' bridgeEmuTag, ''target''], Dir)],
      denied = []\<rparr>"

text \<open>A card with two console folders, two shortcuts (one of them of the generation with
  the star prefix, without a marker file) and two tools.\<close>

definition library :: fsys where
  "library =
     \<lparr>tree =
        [([''mnt''], Dir), ([''mnt'', ''SDCARD''], Dir), (romsPath, Dir),
         (romsPath @ [''Sega Genesis (MD)''], Dir),
         (romsPath @ [''Sega Genesis (MD)'', ''Sonic.md''], File ''rom''),
         (romsPath @ [''Sega Genesis (MD)'', ''Battletoads (World).md''], File ''rom''),
         (romsPath @ [''Game Boy (GB)''], Dir),
         (romsPath @ [''Game Boy (GB)'', ''Tetris.gb''], File ''rom''),
         (romsPath @ [buildFolderName ShortcutPositionTop ''Sonic'' ''MD''], Dir),
         (romsPath @ [buildFolderName ShortcutPositionTop ''Sonic'' ''MD'', shortcutMarkerFile],
            File ''Sonic''),
         (romsPath @ [legacyBuildFolderName ''Battletoads (World)'' ''MD''], Dir),
         (toolsPath, Dir), (toolsPath @ [''tg5040''], Dir),
         (toolsPath @ [''tg5040'', ''Files.pak''], Dir),
         (toolsPath @ [''tg5040'', ''Clock.pak''], Dir)],
      denied = []\<rparr>"

text \<open>The folder name that the comment of \<^verbatim>\<open>buildFolderName\<close> still shows for the
  generation with the marker U+200B (bytes E2 80 8B), and a card with such a folder.\<close>

definition zwsName :: string where
  "zwsName = [CHR 0xE2, CHR 0x80, CHR 0x8B] @ ''Battletoads (MD)''"

definition cardZws :: fsys where
  "cardZws = \<lparr>tree = tree card @ [(romsPath @ [zwsName], Dir)], denied = []\<rparr>"

text \<open>The same folder with the marker file that the generation wrote into it.\<close>

definition cardZwsMarker :: fsys where
  "cardZwsMarker =
     \<lparr>tree = tree cardZws @ [(romsPath @ [zwsName, shortcutMarkerFile], File ''Battletoads'')],
      denied = []\<rparr>"


text \<open>A wallpaper of one opaque white pixel, and the card with the Bottom shortcut where
  that wallpaper is the global \<^verbatim>\<open>bg.png\<close>.\<close>

definition whiteDot :: NRGBA where
  "whiteDot = \<lparr>imgW = 1, imgH = 1, Pix = [0xff, 0xff, 0xff, 0xff]\<rparr>"

definition cardWallpaper :: fsys where
  "cardWallpaper =
     \<lparr>tree = tree cardShortcut @ [([''mnt'', ''SDCARD'', ''bg.png''], File (rawBytes whiteDot))],
      denied = []\<rparr>"

section \<open>Properties of the string functions\<close>

lemma LastIndexByte_notin: "c \<notin> set s \<Longrightarrow> LastIndexByte s c = -1"
  by (induction s) (auto simp: Let_def)

lemma LastIndexByte_append: "c \<notin> set t \<Longrightarrow> LastIndexByte (s @ c # t) c = int (length s)"
  by (induction s) (auto simp: Let_def LastIndexByte_notin)

lemma spaceRunes_nonempty: "r \<in> set spaceRunes \<Longrightarrow> r \<noteq> []"
  by (auto simp: spaceRunes_def)

lemma spaceRunes_snoc_space: "zs @ [CHR 0x20] \<in> set spaceRunes \<Longrightarrow> zs = []"
  by (auto simp: spaceRunes_def Cons_eq_append_conv append_eq_Cons_conv)

lemma spaceRunes_butlast:
  "r \<in> set spaceRunes \<Longrightarrow>
   set (butlast r) \<subseteq> {CHR 0xC2, CHR 0xE1, CHR 0x9A, CHR 0xE2, CHR 0x80, CHR 0x81, CHR 0xE3}"
  by (auto simp: spaceRunes_def)

lemma TrimLeftSpace_id: "\<forall>r\<in>set spaceRunes. \<not> prefix r s \<Longrightarrow> TrimLeftSpace s = s"
proof -
  assume "\<forall>r\<in>set spaceRunes. \<not> prefix r s"
  then have "find (HasPrefix s) spaceRunes = None"
    by (simp add: find_None_iff HasPrefix_def)
  then show ?thesis by (simp add: TrimLeftSpace.simps)
qed

lemma TrimRightSpace_id: "\<forall>r\<in>set spaceRunes. \<not> suffix r s \<Longrightarrow> TrimRightSpace s = s"
proof -
  assume "\<forall>r\<in>set spaceRunes. \<not> suffix r s"
  then have "find (HasSuffix s) spaceRunes = None"
    by (simp add: find_None_iff HasSuffix_def)
  then show ?thesis by (simp add: TrimRightSpace.simps)
qed

lemma TrimLeftSpace_length: "length (TrimLeftSpace s) \<le> length s"
proof (induction s rule: TrimLeftSpace.induct)
  case (1 s)
  show ?case
  proof (cases "find (HasPrefix s) spaceRunes")
    case None
    then show ?thesis by (simp add: TrimLeftSpace.simps)
  next
    case (Some r)
    with "1" have "length (TrimLeftSpace (drop (length r) s)) \<le> length (drop (length r) s)"
      by simp
    with Some show ?thesis by (simp add: TrimLeftSpace.simps [of s])
  qed
qed

lemma TrimRightSpace_length: "length (TrimRightSpace s) \<le> length s"
proof (induction s rule: TrimRightSpace.induct)
  case (1 s)
  show ?case
  proof (cases "find (HasSuffix s) spaceRunes")
    case None
    then show ?thesis by (simp add: TrimRightSpace.simps)
  next
    case (Some r)
    with "1" have "length (TrimRightSpace (take (length s - length r) s))
        \<le> length (take (length s - length r) s)"
      by simp
    with Some show ?thesis by (simp add: TrimRightSpace.simps [of s])
  qed
qed

lemma TrimLeftSpace_shrinks:
  assumes "r \<in> set spaceRunes" and "prefix r s"
  shows "length (TrimLeftSpace s) < length s"
proof -
  from assms obtain r' where f: "find (HasPrefix s) spaceRunes = Some r'"
    by (cases "find (HasPrefix s) spaceRunes") (auto simp: find_None_iff HasPrefix_def)
  then have "r' \<in> set spaceRunes" and "prefix r' s"
    by (auto simp: find_Some_iff HasPrefix_def)
  then have "r' \<noteq> []" and "s \<noteq> []"
    by (auto simp: spaceRunes_def)
  then have "length (drop (length r') s) < length s" by simp
  moreover have "length (TrimLeftSpace (drop (length r') s)) \<le> length (drop (length r') s)"
    by (rule TrimLeftSpace_length)
  ultimately show ?thesis using f by (simp add: TrimLeftSpace.simps [of s])
qed

lemma TrimRightSpace_shrinks:
  assumes "r \<in> set spaceRunes" and "suffix r s"
  shows "length (TrimRightSpace s) < length s"
proof -
  from assms obtain r' where f: "find (HasSuffix s) spaceRunes = Some r'"
    by (cases "find (HasSuffix s) spaceRunes") (auto simp: find_None_iff HasSuffix_def)
  then have "r' \<in> set spaceRunes" and "suffix r' s"
    by (auto simp: find_Some_iff HasSuffix_def)
  then have "r' \<noteq> []" and "s \<noteq> []"
    by (auto simp: spaceRunes_def)
  then have "length (take (length s - length r') s) < length s" by simp
  moreover have "length (TrimRightSpace (take (length s - length r') s))
      \<le> length (take (length s - length r') s)"
    by (rule TrimRightSpace_length)
  ultimately show ?thesis using f by (simp add: TrimRightSpace.simps [of s])
qed

lemma TrimSpace_fixed:
  assumes "TrimSpace d = d"
  shows "\<forall>r\<in>set spaceRunes. \<not> prefix r d" and "\<forall>r\<in>set spaceRunes. \<not> suffix r d"
proof -
  have le: "length (TrimRightSpace (TrimLeftSpace d)) \<le> length (TrimLeftSpace d)"
    by (rule TrimRightSpace_length)
  show p: "\<forall>r\<in>set spaceRunes. \<not> prefix r d"
  proof (intro ballI notI)
    fix r assume "r \<in> set spaceRunes" and "prefix r d"
    then have "length (TrimLeftSpace d) < length d" by (rule TrimLeftSpace_shrinks)
    with le assms show False by (simp add: TrimSpace_def)
  qed
  then have "TrimLeftSpace d = d" by (rule TrimLeftSpace_id)
  with assms have fixR: "TrimRightSpace d = d" by (simp add: TrimSpace_def)
  show "\<forall>r\<in>set spaceRunes. \<not> suffix r d"
  proof (intro ballI notI)
    fix r assume "r \<in> set spaceRunes" and "suffix r d"
    then have "length (TrimRightSpace d) < length d" by (rule TrimRightSpace_shrinks)
    with fixR show False by simp
  qed
qed

lemma TrimRightSpace_snoc_space: "TrimRightSpace (s @ '' '') = TrimRightSpace s"
proof -
  have "find (HasSuffix (s @ '' '')) spaceRunes = Some '' ''"
    by (simp add: HasSuffix_def suffix_to_prefix spaceRunes_def)
  then show ?thesis by (simp add: TrimRightSpace.simps [of "s @ '' ''"])
qed

lemma no_space_prefix_snoc:
  assumes "\<forall>r\<in>set spaceRunes. \<not> prefix r d" and "d \<noteq> []"
  shows "\<forall>r\<in>set spaceRunes. \<not> prefix r (d @ '' '')"
proof (intro ballI notI)
  fix r assume r: "r \<in> set spaceRunes" and "prefix r (d @ '' '')"
  then have "r = d @ '' '' \<or> prefix r d" by simp
  with assms r have "d @ '' '' \<in> set spaceRunes" by auto
  then have "d = []" by (rule spaceRunes_snoc_space)
  with assms show False by simp
qed

lemma no_space_suffix_append:
  assumes ns: "\<forall>r\<in>set spaceRunes. \<not> suffix r d" and d: "d \<noteq> []"
    and x: "x = [] \<or> last x \<in> {CHR 0x20, CHR 0xBF}"
  shows "\<forall>r\<in>set spaceRunes. \<not> suffix r (x @ d)"
proof (intro ballI notI)
  fix r assume r: "r \<in> set spaceRunes" and "suffix r (x @ d)"
  then have "suffix r d \<or> (\<exists>u. r = u @ d \<and> suffix u x)"
    by (simp add: suffix_append)
  with ns r obtain u where u: "r = u @ d" "suffix u x" by auto
  with ns r have "u \<noteq> []" by (auto simp: suffix_def)
  with u have "x \<noteq> []" and lu: "last u = last x" by (auto simp: suffix_def)
  from \<open>u \<noteq> []\<close> d u have "last u \<in> set (butlast r)"
    by (simp add: butlast_append)
  with spaceRunes_butlast [OF r] lu x \<open>x \<noteq> []\<close> show False by auto
qed

lemma TrimSpace_wrapped:
  assumes fx: "TrimSpace d = d" and d: "d \<noteq> []"
    and x: "x = [] \<or> last x \<in> {CHR 0x20, CHR 0xBF}"
    and xp: "\<forall>r\<in>set spaceRunes. \<not> prefix r (x @ d @ '' '')"
  shows "TrimSpace (x @ d @ '' '') = x @ d"
proof -
  have "TrimLeftSpace (x @ d @ '' '') = x @ d @ '' ''"
    using xp by (rule TrimLeftSpace_id)
  moreover have "TrimRightSpace ((x @ d) @ '' '') = TrimRightSpace (x @ d)"
    by (rule TrimRightSpace_snoc_space)
  moreover have "TrimRightSpace (x @ d) = x @ d"
    using TrimSpace_fixed(2) [OF fx] d x
    by (intro TrimRightSpace_id no_space_suffix_append)
  ultimately show ?thesis by (simp add: TrimSpace_def)
qed

lemma TrimSpace_snoc_space:
  assumes "TrimSpace d = d"
  shows "TrimSpace (d @ '' '') = d"
proof (cases "d = []")
  case True
  have "TrimSpace ([] @ '' '') = []" by code_simp
  with True show ?thesis by simp
next
  case False
  have "\<forall>r\<in>set spaceRunes. \<not> prefix r (d @ '' '')"
    using TrimSpace_fixed(1) [OF assms] False by (rule no_space_prefix_snoc)
  with assms False have "TrimSpace ([] @ d @ '' '') = [] @ d"
    by (intro TrimSpace_wrapped) simp_all
  then show ?thesis by simp
qed

lemma TrimSpace_shortcutPrefix:
  assumes "TrimSpace d = d"
  shows "TrimSpace (shortcutPrefix @ d @ '' '') = shortcutPrefix @ d"
proof (cases "d = []")
  case True
  have "TrimSpace (shortcutPrefix @ [] @ '' '') = shortcutPrefix @ []" by code_simp
  with True show ?thesis by simp
next
  case False
  have "\<forall>r\<in>set spaceRunes. \<not> prefix r (shortcutPrefix @ d @ '' '')"
    by (simp add: spaceRunes_def shortcutPrefix_def)
  with assms False show ?thesis
    by (intro TrimSpace_wrapped) (simp_all add: shortcutPrefix_def)
qed

lemma TrimSpace_topPrefix:
  assumes "TrimSpace d = d" and "d \<noteq> []"
  shows "TrimSpace (topPrefix @ d @ '' '') = topPrefix @ d"
proof -
  have "\<forall>r\<in>set spaceRunes. \<not> prefix r (topPrefix @ d @ '' '')"
    by (simp add: spaceRunes_def topPrefix_def)
  with assms show ?thesis
    by (intro TrimSpace_wrapped) (simp_all add: topPrefix_def)
qed

lemma TrimSpace_legacyPrefix:
  assumes "TrimSpace d = d" and "d \<noteq> []"
  shows "TrimSpace (legacyShortcutPrefix @ d @ '' '') = legacyShortcutPrefix @ d"
proof -
  have "\<forall>r\<in>set spaceRunes. \<not> prefix r (legacyShortcutPrefix @ d @ '' '')"
    by (simp add: spaceRunes_def legacyShortcutPrefix_def)
  with assms show ?thesis
    by (intro TrimSpace_wrapped) (simp_all add: legacyShortcutPrefix_def)
qed

lemma slice_middle: "slice (a @ b @ c) (int (length a)) (int (length a + length b)) = b"
  by (simp add: slice_def)

lemma extractTag_base:
  assumes "CHR ''('' \<notin> set t"
  shows "extractTag (x @ d @ '' ('' @ t @ '')'') = TrimSpace t"
proof -
  let ?n = "x @ d @ '' ('' @ t @ '')''"
  have n1: "?n = (x @ d @ '' '') @ CHR ''('' # (t @ '')'')" by simp
  have n2: "?n = (x @ d @ '' ('' @ t) @ CHR '')'' # []" by simp
  have i: "LastIndexByte ?n CHR ''('' = int (length (x @ d @ '' ''))"
    unfolding n1 using assms by (intro LastIndexByte_append) simp
  have e: "LastIndexByte ?n CHR '')'' = int (length (x @ d @ '' ('' @ t))"
    unfolding n2 by (intro LastIndexByte_append) simp
  have "slice ((x @ d @ '' ('') @ t @ '')'')
           (int (length (x @ d @ '' (''))) (int (length (x @ d @ '' ('') + length t)) = t"
    by (rule slice_middle)
  then have s: "slice ?n (int (length (x @ d @ '' '')) + 1) (int (length (x @ d @ '' ('' @ t))) = t"
    by (simp add: add.commute add.left_commute)
  show ?thesis
    unfolding extractTag_def i e Let_def s by simp
qed

lemma extractDisplayName_base:
  assumes "CHR ''('' \<notin> set t"
  shows "extractDisplayName (x @ d @ '' ('' @ t @ '')'') = TrimSpace (x @ d @ '' '')"
proof -
  let ?n = "x @ d @ '' ('' @ t @ '')''"
  have n1: "?n = (x @ d @ '' '') @ CHR ''('' # (t @ '')'')" by simp
  have i: "LastIndexByte ?n CHR ''('' = int (length (x @ d @ '' ''))"
    unfolding n1 using assms by (intro LastIndexByte_append) simp
  have "slice ([] @ (x @ d @ '' '') @ (''('' @ t @ '')''))
           (int (length ([]::string))) (int (length ([]::string) + length (x @ d @ '' ''))) = x @ d @ '' ''"
    by (rule slice_middle)
  then have s: "slice ?n 0 (int (length (x @ d @ '' ''))) = x @ d @ '' ''"
    by simp
  show ?thesis
    unfolding extractDisplayName_def i Let_def s by simp
qed

section \<open>The codec: encoding and decoding a folder name\<close>

lemma decode_bottom:
  assumes d: "TrimSpace d = d" and nl: "\<not> HasPrefix d legacyShortcutPrefix"
    and t: "CHR ''('' \<notin> set t"
  shows "displayFromFolderName (buildFolderName ShortcutPositionBottom d t) = d"
proof -
  have "extractDisplayName (shortcutPrefix @ d @ '' ('' @ t @ '')'') = shortcutPrefix @ d"
    using extractDisplayName_base [OF t] TrimSpace_shortcutPrefix [OF d] by simp
  then show ?thesis
    using nl by (simp add: displayFromFolderName_def buildFolderName_def TrimPrefix_def HasPrefix_def)
qed

lemma decode_alpha:
  assumes d: "TrimSpace d = d" and ns: "\<not> HasPrefix d shortcutPrefix"
    and nl: "\<not> HasPrefix d legacyShortcutPrefix" and t: "CHR ''('' \<notin> set t"
  shows "displayFromFolderName (buildFolderName ShortcutPositionAlpha d t) = d"
proof -
  have "extractDisplayName ([] @ d @ '' ('' @ t @ '')'') = TrimSpace ([] @ d @ '' '')"
    using t by (rule extractDisplayName_base)
  then have "extractDisplayName (d @ '' ('' @ t @ '')'') = d"
    using TrimSpace_snoc_space [OF d] by simp
  then show ?thesis
    using ns nl by (simp add: displayFromFolderName_def buildFolderName_def TrimPrefix_def)
qed

lemma extractTag_buildFolderName:
  assumes "CHR ''('' \<notin> set t" and "TrimSpace t = t"
  shows "extractTag (buildFolderName pos d t) = t"
proof (cases pos)
  case ShortcutPositionBottom
  then show ?thesis using extractTag_base [OF assms(1), of shortcutPrefix d] assms(2)
    by (simp add: buildFolderName_def)
next
  case ShortcutPositionTop
  then show ?thesis using extractTag_base [OF assms(1), of topPrefix d] assms(2)
    by (simp add: buildFolderName_def)
next
  case ShortcutPositionAlpha
  then show ?thesis using extractTag_base [OF assms(1), of "[]" d] assms(2)
    by (simp add: buildFolderName_def)
qed

lemma legacy_decode:
  assumes d: "TrimSpace d = d" and ne: "d \<noteq> []"
    and t: "CHR ''('' \<notin> set t" and tt: "TrimSpace t = t"
  shows "decodeFolderName (legacyBuildFolderName d t) = (d, t)"
proof -
  have n: "legacyBuildFolderName d t = legacyShortcutPrefix @ d @ '' ('' @ t @ '')''"
    by (simp add: legacyBuildFolderName_def legacyShortcutPrefix_def)
  have "extractDisplayName (legacyShortcutPrefix @ d @ '' ('' @ t @ '')'') = legacyShortcutPrefix @ d"
    using extractDisplayName_base [OF t] TrimSpace_legacyPrefix [OF d ne] by simp
  moreover have "\<not> prefix shortcutPrefix (legacyShortcutPrefix @ d)"
    by (simp add: shortcutPrefix_def legacyShortcutPrefix_def)
  ultimately have "displayFromFolderName (legacyBuildFolderName d t) = d"
    unfolding n by (simp add: displayFromFolderName_def TrimPrefix_def HasPrefix_def)
  moreover have "extractTag (legacyBuildFolderName d t) = t"
    unfolding n using extractTag_base [OF t, of legacyShortcutPrefix d] tt by simp
  ultimately show ?thesis by (simp add: decodeFolderName_def)
qed

text \<open>
  Claim C1, as amended. For a Bottom or an Alphabetical shortcut, a display name without
  leading or trailing white space that does not begin with the marker U+FEFF or with the
  legacy prefix (U+2605 and a space), and a tag without \<open>(\<close> and without leading or trailing
  white space: decoding the folder name that \<^verbatim>\<open>buildFolderName\<close> makes, the way
  \<^verbatim>\<open>scanShortcuts\<close> does from the name alone, gives back the display name and the tag.
  No position is decoded: a \<^verbatim>\<open>Shortcut\<close> has no such field.
\<close>

theorem buildFolderName_roundtrip:
  assumes "TrimSpace displayName = displayName"
    and "\<not> HasPrefix displayName shortcutPrefix"
    and "\<not> HasPrefix displayName legacyShortcutPrefix"
    and "CHR ''('' \<notin> set tag"
    and "TrimSpace tag = tag"
    and "pos \<noteq> ShortcutPositionTop"
  shows "decodeFolderName (buildFolderName pos displayName tag) = (displayName, tag)"
proof -
  have "displayFromFolderName (buildFolderName pos displayName tag) = displayName"
    using assms decode_bottom decode_alpha by (cases pos) auto
  moreover have "extractTag (buildFolderName pos displayName tag) = tag"
    using assms by (intro extractTag_buildFolderName)
  ultimately show ?thesis by (simp add: decodeFolderName_def)
qed

text \<open>The hypotheses hold for Battletoads (MD) at the bottom.\<close>

theorem buildFolderName_roundtrip_witness:
  "TrimSpace ''Battletoads'' = ''Battletoads''
   \<and> \<not> HasPrefix ''Battletoads'' shortcutPrefix
   \<and> \<not> HasPrefix ''Battletoads'' legacyShortcutPrefix
   \<and> CHR ''('' \<notin> set ''MD''
   \<and> TrimSpace ''MD'' = ''MD''
   \<and> ShortcutPositionBottom \<noteq> ShortcutPositionTop
   \<and> decodeFolderName (buildFolderName ShortcutPositionBottom ''Battletoads'' ''MD'')
       = (''Battletoads'', ''MD'')"
proof -
  have h1: "TrimSpace ''Battletoads'' = ''Battletoads''" by code_simp
  have h2: "\<not> HasPrefix ''Battletoads'' shortcutPrefix" by code_simp
  have h3: "\<not> HasPrefix ''Battletoads'' legacyShortcutPrefix" by code_simp
  have h4: "CHR ''('' \<notin> set ''MD''" by simp
  have h5: "TrimSpace ''MD'' = ''MD''" by code_simp
  have h6: "ShortcutPositionBottom \<noteq> ShortcutPositionTop" by simp
  from buildFolderName_roundtrip [OF h1 h2 h3 h4 h5 h6] h1 h2 h3 h4 h5 h6
  show ?thesis by blast
qed

text \<open>
  Claim C1 as stated fails: the prefix of a Top shortcut stays in the decoded display
  name (\<open>''0) Battletoads''\<close>), a trailing space of the display name is lost, and a tag
  with an opening parenthesis is cut (\<open>''Game (A''\<close> and \<open>''B''\<close>).
\<close>

theorem buildFolderName_roundtrip_counterexample:
  "decodeFolderName (buildFolderName ShortcutPositionTop ''Battletoads'' ''MD'')
     = (''0) Battletoads'', ''MD'')
   \<and> decodeFolderName (buildFolderName ShortcutPositionTop ''Battletoads'' ''MD'')
     \<noteq> (''Battletoads'', ''MD'')
   \<and> decodeFolderName (buildFolderName ShortcutPositionBottom ''Contra '' ''NES'')
     = (''Contra'', ''NES'')
   \<and> decodeFolderName (buildFolderName ShortcutPositionBottom ''Contra '' ''NES'')
     \<noteq> (''Contra '', ''NES'')
   \<and> decodeFolderName (buildFolderName ShortcutPositionAlpha ''Game'' ''A(B'')
     = (''Game (A'', ''B'')
   \<and> decodeFolderName (buildFolderName ShortcutPositionAlpha ''Game'' ''A(B'')
     \<noteq> (''Game'', ''A(B'')"
  by code_simp

section \<open>Fitting the art into its box\<close>

lemma wrap64_id: "- (2 ^ 63) \<le> i \<Longrightarrow> i < 2 ^ 63 \<Longrightarrow> wrap64 i = i"
  by (simp add: wrap64_def)

lemma quot_nonneg:
  assumes "0 \<le> a" and "0 < b" and "a < 2 ^ 63"
  shows "quot a b = a div b"
proof -
  have d: "0 \<le> a div b"
    using assms by (simp add: pos_imp_zdiv_nonneg_iff)
  have "a div b \<le> a div 1"
    using assms by (intro zdiv_mono2) simp_all
  with d have "wrap64 (a div b) = a div b"
    by (intro wrap64_id) (use assms in simp_all)
  moreover have "sgn a * sgn b * (\<bar>a\<bar> div \<bar>b\<bar>) = a div b"
    using assms by (cases "a = 0") (simp_all add: sgn_if)
  ultimately show ?thesis by (simp add: quot_def)
qed

lemma div_floor_bounds:
  fixes a b :: int
  assumes "0 < b"
  shows "a div b * b \<le> a" and "a < (a div b + 1) * b"
proof -
  define q r where "q = a div b" and "r = a mod b"
  have "b * q + r = a" and "0 \<le> r" and "r < b"
    using assms by (simp_all add: q_def r_def)
  then have "q * b \<le> a" and "a < (q + 1) * b"
    by (simp_all add: algebra_simps)
  then show "a div b * b \<le> a" and "a < (a div b + 1) * b"
    by (simp_all add: q_def)
qed

text \<open>
  Claim C8. For a source strictly larger than the bounding box in both dimensions (and
  sizes whose products fit an \<^verbatim>\<open>int\<close>, as those of every decoded image do),
  \<^verbatim>\<open>thumbnailFit\<close> returns a width and a height within their bounds; one of them is its
  bound and the other is the value that keeps the aspect ratio of the source, rounded down
  to an integer.
\<close>

theorem thumbnailFit_fits:
  assumes "0 < maxW" and "maxW < srcW" and "0 < maxH" and "maxH < srcH"
    and "srcH * maxW < 2 ^ 63" and "srcW * maxH < 2 ^ 63"
  shows "case thumbnailFit srcW srcH maxW maxH of
           (newW, newH) \<Rightarrow>
             0 \<le> newW \<and> newW \<le> maxW \<and> 0 \<le> newH \<and> newH \<le> maxH \<and>
             (newW = maxW \<and> newH * srcW \<le> srcH * newW \<and> srcH * newW < (newH + 1) * srcW
              \<or> newH = maxH \<and> newW * srcH \<le> srcW * newH \<and> srcW * newH < (newW + 1) * srcH)"
proof -
  have sw: "0 < srcW" and sh: "0 < srcH" using assms by simp_all
  have p1: "0 \<le> srcH * maxW" and p2: "0 \<le> srcW * maxH" using assms sw sh by simp_all
  have "- (2 ^ 63) \<le> (0::int)" by simp
  then have "- (2 ^ 63) \<le> srcH * maxW" and "- (2 ^ 63) \<le> srcW * maxH"
    using p1 p2 by (blast intro: order_trans)+
  then have w1: "wrap64 (srcH * maxW) = srcH * maxW"
    and w2: "wrap64 (srcW * maxH) = srcW * maxH"
    using assms by (simp_all add: wrap64_id)
  have q1: "quot (srcH * maxW) srcW = srcH * maxW div srcW"
    using p1 sw assms by (intro quot_nonneg)
  have q2: "quot (srcW * maxH) srcH = srcW * maxH div srcH"
    using p2 sh assms by (intro quot_nonneg)
  let ?h = "srcH * maxW div srcW" and ?w = "srcW * maxH div srcH"
  show ?thesis
  proof (cases "maxH < ?h")
    case False
    have "0 \<le> ?h" using p1 sw by (simp add: pos_imp_zdiv_nonneg_iff)
    moreover have "?h * srcW \<le> srcH * maxW" "srcH * maxW < (?h + 1) * srcW"
      using div_floor_bounds [OF sw, of "srcH * maxW"] by simp_all
    ultimately show ?thesis
      using False assms sw sh by (simp add: thumbnailFit_def w1 q1 Let_def)
  next
    case True
    have "0 \<le> ?w" using p2 sh by (simp add: pos_imp_zdiv_nonneg_iff)
    moreover have "?w * srcH \<le> srcW * maxH" "srcW * maxH < (?w + 1) * srcH"
      using div_floor_bounds [OF sh, of "srcW * maxH"] by simp_all
    moreover have "?w \<le> maxW"
    proof -
      from True have "maxH + 1 \<le> ?h" by simp
      then have "(maxH + 1) * srcW \<le> ?h * srcW" using sw by (simp add: mult_right_mono)
      also have "\<dots> \<le> srcH * maxW" using div_floor_bounds(1) [OF sw, of "srcH * maxW"] .
      finally have "srcW * maxH \<le> maxW * srcH" using sw by (simp add: algebra_simps)
      then have "srcW * maxH div srcH \<le> maxW * srcH div srcH" by (rule zdiv_mono1) (rule sh)
      then show ?thesis using sh by simp
    qed
    ultimately show ?thesis
      using True assms sw sh by (simp add: thumbnailFit_def w1 w2 q1 q2 Let_def)
  qed
qed

text \<open>A 1920x1080 picture in the 576x432 box of the 1280x720 screen.\<close>

theorem thumbnailFit_fits_witness:
  "(0::int) < 576 \<and> (576::int) < 1920 \<and> (0::int) < 432 \<and> (432::int) < 1080
   \<and> (1080::int) * 576 < 2 ^ 63 \<and> (1920::int) * 432 < 2 ^ 63
   \<and> thumbnailFit 1920 1080 576 432 = (576, 324)
   \<and> thumbnailFit 1000 3000 576 432 = (144, 432)"
proof -
  have v: "thumbnailFit 1920 1080 576 432 = (576, 324)"
          "thumbnailFit 1000 3000 576 432 = (144, 432)"
    by (simp_all add: thumbnailFit_def quot_def wrap64_def)
  have "case thumbnailFit 1920 1080 576 432 of
           (newW, newH) \<Rightarrow>
             0 \<le> newW \<and> newW \<le> 576 \<and> 0 \<le> newH \<and> newH \<le> 432 \<and>
             (newW = 576 \<and> newH * 1920 \<le> 1080 * newW \<and> 1080 * newW < (newH + 1) * 1920
              \<or> newH = 432 \<and> newW * 1080 \<le> 1920 * newH \<and> 1920 * newH < (newW + 1) * 1080)"
    by (rule thumbnailFit_fits) simp_all
  with v show ?thesis by simp
qed

section \<open>The rounded-corner mask\<close>

lemma nth_update_zero_keeps: "xs ! i = (0::byte) \<Longrightarrow> xs[j := 0] ! i = 0"
  by (cases "j < length xs") (simp_all add: nth_list_update list_update_beyond)

lemma clearPixel_zero_keeps: "pix ! i = 0 \<Longrightarrow> clearPixel off pix ! i = 0"
  by (simp add: clearPixel_def nth_update_zero_keeps)

lemma clearPixel_length [simp]: "length (clearPixel off pix) = length pix"
  by (simp add: clearPixel_def)

lemma clearPixel_hits:
  "nat off + 3 < length pix \<Longrightarrow> k < 4 \<Longrightarrow> clearPixel off pix ! (nat off + k) = 0"
  by (auto simp: clearPixel_def nth_list_update)

lemma clearPixel_misses:
  "i < nat off \<or> nat off + 3 < i \<Longrightarrow> clearPixel off pix ! i = pix ! i"
  by (auto simp: clearPixel_def)

lemma maskPixel_dims [simp]:
  "imgW (maskPixel r y x img) = imgW img"
  "imgH (maskPixel r y x img) = imgH img"
  "length (Pix (maskPixel r y x img)) = length (Pix img)"
  by (simp_all add: maskPixel_def)

lemma maskPixel_zero_keeps: "Pix img ! i = 0 \<Longrightarrow> Pix (maskPixel r y x img) ! i = 0"
  by (simp add: maskPixel_def clearPixel_zero_keeps)

lemma maskRow_dims [simp]:
  "imgW (fold (maskPixel r y) xs img) = imgW img"
  "imgH (fold (maskPixel r y) xs img) = imgH img"
  "length (Pix (fold (maskPixel r y) xs img)) = length (Pix img)"
  by (induction xs arbitrary: img) simp_all

lemma maskRow_zero_keeps:
  "Pix img ! i = 0 \<Longrightarrow> Pix (fold (maskPixel r y) xs img) ! i = 0"
  by (induction xs arbitrary: img) (simp_all add: maskPixel_zero_keeps)

lemma maskRows_dims [simp]:
  "imgW (fold (\<lambda>y. fold (maskPixel r y) xs) ys img) = imgW img"
  "imgH (fold (\<lambda>y. fold (maskPixel r y) xs) ys img) = imgH img"
  "length (Pix (fold (\<lambda>y. fold (maskPixel r y) xs) ys img)) = length (Pix img)"
  by (induction ys arbitrary: img) simp_all

lemma maskRows_zero_keeps:
  "Pix img ! i = 0 \<Longrightarrow> Pix (fold (\<lambda>y. fold (maskPixel r y) xs) ys img) ! i = 0"
  by (induction ys arbitrary: img) (simp_all add: maskRow_zero_keeps)

text \<open>Two different pixels of an image do not share a byte.\<close>

lemma pixel_index_neq:
  fixes w x y cx cy :: int
  assumes "0 \<le> x" "x < w" "0 \<le> y" "0 \<le> cx" "cx < w" "0 \<le> cy" "(x, y) \<noteq> (cx, cy)"
  shows "y * w + x \<noteq> cy * w + cx"
proof (cases "y = cy")
  case True
  with assms show ?thesis by simp
next
  case False
  then consider "y < cy" | "cy < y" by linarith
  then show ?thesis
  proof cases
    case 1
    then have "(y + 1) * w \<le> cy * w" using assms by (intro mult_right_mono) simp_all
    then show ?thesis using assms by (simp add: algebra_simps)
  next
    case 2
    then have "(cy + 1) * w \<le> y * w" using assms by (intro mult_right_mono) simp_all
    then show ?thesis using assms by (simp add: algebra_simps)
  qed
qed

lemma maskPixel_other:
  assumes "0 \<le> x" "x < imgW img" "0 \<le> y" "0 \<le> cx" "cx < imgW img" "0 \<le> cy"
    and "(x, y) \<noteq> (cx, cy)" and "k < 4"
  shows "Pix (maskPixel r y x img) ! (nat (PixOffset img cx cy) + k)
         = Pix img ! (nat (PixOffset img cx cy) + k)"
proof -
  let ?w = "imgW img"
  have ne: "y * ?w + x \<noteq> cy * ?w + cx" using assms by (intro pixel_index_neq) simp_all
  have a: "0 \<le> y * ?w + x" and b: "0 \<le> cy * ?w + cx" using assms by simp_all
  have o1: "PixOffset img x y = 4 * (y * ?w + x)" and o2: "PixOffset img cx cy = 4 * (cy * ?w + cx)"
    by (simp_all add: PixOffset_def algebra_simps)
  obtain m n :: nat where m: "y * ?w + x = int m" and n: "cy * ?w + cx = int n"
    using a b by (metis nonneg_int_cases)
  have "m \<noteq> n" using ne m n by simp
  then have "4 * n + k < 4 * m \<or> 4 * m + 3 < 4 * n + k"
    using \<open>k < 4\<close> by arith
  moreover have "nat (4 * int m) = 4 * m" and "nat (4 * int n) = 4 * n"
    by (simp_all add: nat_mult_distrib)
  ultimately have "nat (PixOffset img cx cy) + k < nat (PixOffset img x y)
        \<or> nat (PixOffset img x y) + 3 < nat (PixOffset img cx cy) + k"
    unfolding o1 o2 m n by simp
  then show ?thesis by (simp add: maskPixel_def clearPixel_misses)
qed

lemma maskRow_keeps:
  assumes "\<forall>x\<in>set xs. 0 \<le> x \<and> x < imgW img" and "0 \<le> y"
    and "0 \<le> cx" "cx < imgW img" "0 \<le> cy"
    and "\<not> outsideCorner r (imgW img) (imgH img) cx cy" and "k < 4"
  shows "Pix (fold (maskPixel r y) xs img) ! (nat (PixOffset img cx cy) + k)
         = Pix img ! (nat (PixOffset img cx cy) + k)"
  using assms
proof (induction xs arbitrary: img)
  case Nil
  then show ?case by simp
next
  case (Cons x xs)
  let ?img = "maskPixel r y x img"
  have off: "PixOffset ?img cx cy = PixOffset img cx cy" by (simp add: PixOffset_def)
  have step: "Pix ?img ! (nat (PixOffset img cx cy) + k) = Pix img ! (nat (PixOffset img cx cy) + k)"
  proof (cases "(x, y) = (cx, cy)")
    case True
    with Cons.prems show ?thesis by (simp add: maskPixel_def)
  next
    case False
    with Cons.prems show ?thesis by (intro maskPixel_other) simp_all
  qed
  have "Pix (fold (maskPixel r y) xs ?img) ! (nat (PixOffset ?img cx cy) + k)
        = Pix ?img ! (nat (PixOffset ?img cx cy) + k)"
    using Cons.prems by (intro Cons.IH) simp_all
  with step off show ?case by simp
qed

lemma maskRows_keeps:
  assumes "\<forall>x\<in>set xs. 0 \<le> x \<and> x < imgW img" and "\<forall>y\<in>set ys. 0 \<le> y"
    and "0 \<le> cx" "cx < imgW img" "0 \<le> cy"
    and "\<not> outsideCorner r (imgW img) (imgH img) cx cy" and "k < 4"
  shows "Pix (fold (\<lambda>y. fold (maskPixel r y) xs) ys img) ! (nat (PixOffset img cx cy) + k)
         = Pix img ! (nat (PixOffset img cx cy) + k)"
  using assms
proof (induction ys arbitrary: img)
  case Nil
  then show ?case by simp
next
  case (Cons y ys)
  let ?img = "fold (maskPixel r y) xs img"
  have off: "PixOffset ?img cx cy = PixOffset img cx cy" by (simp add: PixOffset_def)
  have step: "Pix ?img ! (nat (PixOffset img cx cy) + k) = Pix img ! (nat (PixOffset img cx cy) + k)"
    using Cons.prems by (intro maskRow_keeps) simp_all
  have "Pix (fold (\<lambda>y. fold (maskPixel r y) xs) ys ?img) ! (nat (PixOffset ?img cx cy) + k)
        = Pix ?img ! (nat (PixOffset ?img cx cy) + k)"
    using Cons.prems by (intro Cons.IH) simp_all
  with step off show ?case by simp
qed

lemma radius_square_bound:
  assumes "wfNRGBA img" and "0 < radius" and "2 * radius < imgW img" and "2 * radius < imgH img"
  shows "0 < radius * radius" and "2 * (radius * radius) < 2 ^ 63"
proof -
  show "0 < radius * radius" using assms by simp
  have a: "radius * radius \<le> imgW img * imgH img"
    using assms by (intro mult_mono) simp_all
  have "4 * imgW img * imgH img < 2 ^ 63"
    using assms by (simp add: wfNRGBA_def)
  then have b: "4 * (imgW img * imgH img) < 9223372036854775808"
    by (simp add: mult.assoc)
  have "0 \<le> radius * radius" by simp
  with a b have "2 * (radius * radius) < 9223372036854775808" by linarith
  then show "2 * (radius * radius) < 2 ^ 63" by simp
qed

lemma outsideCorner_origin:
  assumes "wfNRGBA img" and "0 < radius" and "2 * radius < imgW img" and "2 * radius < imgH img"
  shows "outsideCorner radius (imgW img) (imgH img) 0 0"
proof -
  note b = radius_square_bound [OF assms]
  have m: "- (2 ^ 63) \<le> (0::int)" by simp
  have w1: "wrap64 (radius * radius) = radius * radius"
    using b m by (intro wrap64_id) linarith+
  have w2: "wrap64 (2 * (radius * radius)) = 2 * (radius * radius)"
    using b m by (intro wrap64_id) linarith+
  show ?thesis
    using assms b by (simp add: outsideCorner_def edgeDist_def w1 w2)
qed

lemma insideCorner_center:
  assumes "wfNRGBA img" and "0 < radius" and "2 * radius < imgW img" and "2 * radius < imgH img"
  shows "\<not> outsideCorner radius (imgW img) (imgH img) (imgW img div 2) (imgH img div 2)"
proof -
  note b = radius_square_bound [OF assms]
  have m: "- (2 ^ 63) \<le> (0::int)" by simp
  have w1: "wrap64 (radius * radius) = radius * radius"
    using b m by (intro wrap64_id) linarith+
  have "edgeDist radius (imgW img) (imgW img div 2) = 0"
    and "edgeDist radius (imgH img) (imgH img div 2) = 0"
    using assms by (simp_all add: edgeDist_def) linarith+
  then show ?thesis
    using b by (simp add: outsideCorner_def w1 wrap64_def)
qed

text \<open>
  Claim C9. After \<^verbatim>\<open>applyRoundedCorners\<close> with a radius \<open>r > 0\<close> on an image whose width and
  height both exceed \<open>2 * r\<close>, the alpha byte of the pixel at (0, 0) is 0, and the four bytes
  of the pixel at the centre are what they were: an opaque centre stays opaque.
\<close>

theorem applyRoundedCorners_corner_and_center:
  assumes "wfNRGBA img" and "0 < radius"
    and "2 * radius < imgW img" and "2 * radius < imgH img"
  shows "let out = applyRoundedCorners img radius;
             c = nat (PixOffset img (imgW img div 2) (imgH img div 2))
         in Pix out ! (nat (PixOffset img 0 0) + 3) = 0
            \<and> Pix out ! c = Pix img ! c
            \<and> Pix out ! (c + 1) = Pix img ! (c + 1)
            \<and> Pix out ! (c + 2) = Pix img ! (c + 2)
            \<and> Pix out ! (c + 3) = Pix img ! (c + 3)"
proof -
  let ?w = "imgW img" and ?h = "imgH img"
  let ?xs = "map int [0..<nat ?w]" and ?ys = "map int [0..<nat ?h]"
  have wpos: "0 < ?w" and hpos: "0 < ?h" using assms by simp_all
  have run: "applyRoundedCorners img radius = fold (\<lambda>y. fold (maskPixel radius y) ?xs) ?ys img"
    using assms wpos hpos by (simp add: applyRoundedCorners_def Let_def)
  \<comment> \<open>the corner: cleared by the first step of the loops, and never written again but with 0\<close>
  have xs: "?xs = 0 # map int [1..<nat ?w]" and ys: "?ys = 0 # map int [1..<nat ?h]"
    using wpos hpos by (simp_all add: upt_conv_Cons)
  have "1 \<le> ?w * ?h" using wpos hpos by (smt (verit) mult_pos_pos)
  then have len: "3 < length (Pix img)" using assms by (simp add: wfNRGBA_def mult.assoc)
  have first: "Pix (maskPixel radius 0 0 img) ! 3 = 0"
    using outsideCorner_origin [OF assms] clearPixel_hits [of 0 "Pix img" 3] len
    by (simp add: maskPixel_def PixOffset_def)
  have "Pix (fold (\<lambda>y. fold (maskPixel radius y) ?xs) ?ys img) ! 3 = 0"
    unfolding ys by (simp, subst xs) (simp add: first maskRow_zero_keeps maskRows_zero_keeps)
  then have corner: "Pix (applyRoundedCorners img radius) ! (nat (PixOffset img 0 0) + 3) = 0"
    by (simp add: run PixOffset_def)
  \<comment> \<open>the centre: no step that clears a pixel is at the centre\<close>
  have keep: "Pix (applyRoundedCorners img radius)
                ! (nat (PixOffset img (?w div 2) (?h div 2)) + k)
              = Pix img ! (nat (PixOffset img (?w div 2) (?h div 2)) + k)" if "k < 4" for k
    unfolding run using wpos hpos insideCorner_center [OF assms] that
    by (intro maskRows_keeps) auto
  from keep [of 0] keep [of 1] keep [of 2] keep [of 3] corner
  show ?thesis by (simp add: Let_def)
qed

text \<open>A white 3x3 image and radius 1: the alpha of the centre pixel is byte 19.\<close>

theorem applyRoundedCorners_corner_and_center_witness:
  "wfNRGBA \<lparr>imgW = 3, imgH = 3, Pix = replicate 36 255\<rparr> \<and> (0::int) < 1
   \<and> 2 * 1 < imgW \<lparr>imgW = 3, imgH = 3, Pix = replicate 36 255\<rparr>
   \<and> 2 * 1 < imgH \<lparr>imgW = 3, imgH = 3, Pix = replicate 36 255\<rparr>
   \<and> Pix (applyRoundedCorners \<lparr>imgW = 3, imgH = 3, Pix = replicate 36 255\<rparr> 1) ! 3 = 0
   \<and> Pix (applyRoundedCorners \<lparr>imgW = 3, imgH = 3, Pix = replicate 36 255\<rparr> 1) ! 19 = 255"
proof -
  let ?img = "\<lparr>imgW = 3, imgH = 3, Pix = replicate 36 255\<rparr>"
  have h1: "wfNRGBA ?img" by (simp add: wfNRGBA_def)
  have h2: "(0::int) < 1" by simp
  have h3: "2 * 1 < imgW ?img" and h4: "2 * 1 < imgH ?img" by simp_all
  from applyRoundedCorners_corner_and_center [OF h1 h2 h3 h4] h1
  show ?thesis by (simp add: Let_def PixOffset_def)
qed

section \<open>Properties of the file system operations\<close>

lemma lookupNode_putNode:
  "lookupNode (putNode fs p n) q =
     (if q = [] then Some Dir else if q = p then Some n else lookupNode fs q)"
  by (simp add: lookupNode_def putNode_def update_conv')

lemma denied_putNode [simp]: "denied (putNode fs p n) = denied fs"
  by (simp add: putNode_def)

lemma lookupNode_root [simp]: "lookupNode fs [] = Some Dir"
  by (simp add: lookupNode_def)

lemma ok_Stat: "ok (Stat fs p) \<longleftrightarrow> lookupNode fs p \<noteq> None"
  by (simp add: ok_def Stat_def split: option.splits)

lemma WriteFile_result:
  "WriteFile fs p d =
     (if lookupNode fs p \<noteq> Some Dir \<and> lookupNode fs (butlast p) = Some Dir
         \<and> p \<notin> set (denied fs)
      then (putNode fs p (File d), None)
      else (fs, snd (WriteFile fs p d)))"
  by (simp add: WriteFile_def split: option.splits node.splits)

lemma WriteFile_error_state: "snd (WriteFile fs p d) \<noteq> None \<Longrightarrow> fst (WriteFile fs p d) = fs"
  by (simp add: WriteFile_def split: option.splits node.splits if_splits)

lemma WriteFile_ok_iff:
  "snd (WriteFile fs p d) = None \<longleftrightarrow>
     lookupNode fs p \<noteq> Some Dir \<and> lookupNode fs (butlast p) = Some Dir \<and> p \<notin> set (denied fs)"
  by (simp add: WriteFile_def split: option.splits node.splits)

lemma WriteFile_ok_state:
  "snd (WriteFile fs p d) = None \<Longrightarrow> fst (WriteFile fs p d) = putNode fs p (File d)"
  by (simp add: WriteFile_def split: option.splits node.splits if_splits)

lemma WriteFile_denied [simp]: "denied (fst (WriteFile fs p d)) = denied fs"
  by (simp add: WriteFile_def split: option.splits node.splits)

lemma WriteFile_other:
  "q \<noteq> p \<Longrightarrow> lookupNode (fst (WriteFile fs p d)) q = lookupNode fs q"
  by (simp add: WriteFile_def lookupNode_putNode split: option.splits node.splits)

lemma WriteFile_keeps_Dir:
  "lookupNode fs q = Some Dir \<Longrightarrow> lookupNode (fst (WriteFile fs p d)) q = Some Dir"
  by (cases "q = p") (auto simp: WriteFile_def lookupNode_putNode split: option.splits node.splits)

lemma WriteFile_exists:
  "lookupNode fs q \<noteq> None \<Longrightarrow> lookupNode (fst (WriteFile fs p d)) q \<noteq> None"
  by (auto simp: WriteFile_def lookupNode_putNode split: option.splits node.splits)

lemma WriteFile_reads:
  "snd (WriteFile fs p d) = None \<Longrightarrow> ReadFile (fst (WriteFile fs p d)) p = Inr d"
  by (auto simp: WriteFile_def ReadFile_def lookupNode_putNode split: option.splits node.splits if_splits)

lemma MkdirAll_denied [simp]: "denied (fst (MkdirAll fs p)) = denied fs"
proof (induction fs p rule: MkdirAll.induct)
  case (1 fs p)
  show ?case
  proof (cases "lookupNode fs p")
    case None
    obtain fs1 r where m: "MkdirAll fs (butlast p) = (fs1, r)" by fastforce
    with "1" None have "denied fs1 = denied fs" by simp
    with None m show ?thesis
      by (cases r) (simp_all add: MkdirAll.simps [of fs p])
  next
    case (Some n)
    then show ?thesis by (cases n) (simp_all add: MkdirAll.simps [of fs p])
  qed
qed

lemma MkdirAll_keeps:
  "lookupNode fs q = Some n \<Longrightarrow> lookupNode (fst (MkdirAll fs p)) q = Some n"
proof (induction fs p rule: MkdirAll.induct)
  case (1 fs p)
  show ?case
  proof (cases "lookupNode fs p")
    case None
    obtain fs1 r where m: "MkdirAll fs (butlast p) = (fs1, r)" by fastforce
    with "1" None have ih: "lookupNode fs1 q = Some n" by simp
    from None "1.prems" have "q \<noteq> p" by auto
    with ih None m show ?thesis
      by (cases r) (auto simp: MkdirAll.simps [of fs p] lookupNode_putNode)
  next
    case (Some m)
    with "1.prems" show ?thesis by (cases m) (simp_all add: MkdirAll.simps [of fs p])
  qed
qed

lemma MkdirAll_untouched:
  "\<not> prefix q p \<Longrightarrow> lookupNode (fst (MkdirAll fs p)) q = lookupNode fs q"
proof (induction fs p rule: MkdirAll.induct)
  case (1 fs p)
  show ?case
  proof (cases "lookupNode fs p")
    case None
    from "1.prems" have "\<not> prefix q (butlast p)"
      by (metis prefix_order.trans prefixeq_butlast)
    moreover obtain fs1 r where m: "MkdirAll fs (butlast p) = (fs1, r)" by fastforce
    ultimately have ih: "lookupNode fs1 q = lookupNode fs q"
      using "1" None by simp
    from "1.prems" have "q \<noteq> p" and "q \<noteq> []" by auto
    with ih None m show ?thesis
      by (cases r) (simp_all add: MkdirAll.simps [of fs p] lookupNode_putNode)
  next
    case (Some m)
    then show ?thesis by (cases m) (simp_all add: MkdirAll.simps [of fs p])
  qed
qed

lemma MkdirAll_success:
  "snd (MkdirAll fs p) = None \<Longrightarrow> lookupNode (fst (MkdirAll fs p)) p = Some Dir"
proof (cases "lookupNode fs p")
  case None
  assume "snd (MkdirAll fs p) = None"
  with None have "p \<noteq> []" by (auto simp: lookupNode_def)
  moreover obtain fs1 r where m: "MkdirAll fs (butlast p) = (fs1, r)" by fastforce
  ultimately show ?thesis
    using None \<open>snd (MkdirAll fs p) = None\<close>
    by (cases r) (simp_all add: MkdirAll.simps [of fs p] lookupNode_putNode split: if_splits)
next
  case (Some m)
  assume "snd (MkdirAll fs p) = None"
  with Some show ?thesis by (cases m) (simp_all add: MkdirAll.simps [of fs p])
qed

lemma MkdirAll_exists:
  "lookupNode fs q \<noteq> None \<Longrightarrow> lookupNode (fst (MkdirAll fs p)) q \<noteq> None"
  using MkdirAll_keeps by fastforce

text \<open>A directory one level below an existing one.\<close>

lemma MkdirAll_child:
  assumes "lookupNode fs dir = Some Dir"
  shows "MkdirAll fs (dir @ [name]) =
     (case lookupNode fs (dir @ [name]) of
        Some Dir \<Rightarrow> (fs, None)
      | Some (File d) \<Rightarrow> (fs, Some ENOTDIR)
      | None \<Rightarrow> if dir @ [name] \<in> set (denied fs) then (fs, Some EACCES)
                else (putNode fs (dir @ [name]) Dir, None))"
proof -
  have "MkdirAll fs dir = (fs, None)"
    using assms by (simp add: MkdirAll.simps [of fs dir])
  then show ?thesis
    by (simp add: MkdirAll.simps [of fs "dir @ [name]"] split: option.splits node.splits)
qed

section \<open>What creating a shortcut leaves on the card\<close>

lemma ReadFile_cong: "lookupNode fs' p = lookupNode fs p \<Longrightarrow> ReadFile fs' p = ReadFile fs p"
  by (simp add: ReadFile_def)

lemma m3u_name_neq:
  "n @ ''.m3u'' \<noteq> ''.media''" "n @ ''.m3u'' \<noteq> ''.shortcut''" "n @ ''.m3u'' \<noteq> ''target''"
proof -
  have l: "last (n @ ''.m3u'') = CHR ''u''" by simp
  show "n @ ''.m3u'' \<noteq> ''.media''" using l by (auto dest: arg_cong [where f = last])
  show "n @ ''.m3u'' \<noteq> ''.shortcut''" using l by (auto dest: arg_cong [where f = last])
  show "n @ ''.m3u'' \<noteq> ''target''" using l by (auto dest: arg_cong [where f = last])
qed

text \<open>What generateArtworkBg can do to the file system.\<close>

lemma generateArtworkBg_shape:
  "generateArtworkBg lib e art dest u f fs = fs
   \<or> generateArtworkBg lib e art dest u f fs = fst (MkdirAll fs (dest @ [''.media'']))
   \<or> (\<exists>data. generateArtworkBg lib e art dest u f fs
         = fst (WriteFile (fst (MkdirAll fs (dest @ [''.media''])))
                  (dest @ [''.media'', ''bg.png'']) data))"
  by (auto simp: generateArtworkBg_def Let_def split: option.splits prod.splits sum.splits)

lemma generateArtworkBg_exists:
  assumes "lookupNode fs q \<noteq> None"
  shows "lookupNode (generateArtworkBg lib e art dest u f fs) q \<noteq> None"
proof -
  have m: "lookupNode (fst (MkdirAll fs (dest @ [''.media'']))) q \<noteq> None"
    using assms by (rule MkdirAll_exists)
  then have "lookupNode (fst (WriteFile (fst (MkdirAll fs (dest @ [''.media''])))
                (dest @ [''.media'', ''bg.png'']) data)) q \<noteq> None" for data
    by (rule WriteFile_exists)
  with m assms generateArtworkBg_shape [of lib e art dest u f fs]
  show ?thesis by (elim disjE exE) simp_all
qed

lemma generateArtworkBg_other:
  assumes "\<not> prefix q (dest @ [''.media''])" and "q \<noteq> dest @ [''.media'', ''bg.png'']"
  shows "lookupNode (generateArtworkBg lib e art dest u f fs) q = lookupNode fs q"
  using generateArtworkBg_shape [of lib e art dest u f fs] assms
  by (auto simp: MkdirAll_untouched WriteFile_other)

lemma generateArtworkBg_skip:
  "\<not> ok (Stat fs art) \<Longrightarrow> \<not> f \<Longrightarrow> generateArtworkBg lib e art dest u f fs = fs"
  by (simp add: generateArtworkBg_def)

lemma createROMShortcut_steps:
  "createROMShortcut lib e d t c rom pos st fs =
     (let folder = fst (getBasePaths e) @ [buildFolderName pos d t];
          m3u = folder @ [buildFolderName pos d t @ ''.m3u''];
          fs1 = fst (MkdirAll fs folder);
          fs2 = fst (WriteFile fs1 m3u (relPath c rom));
          fs3 = fst (writeShortcutMarker fs2 folder d)
      in case snd (MkdirAll fs folder) of
           Some err \<Rightarrow> (fs1, Some (Wrapped ''creating shortcut dir'' (PathError err)))
         | None \<Rightarrow>
             (case snd (WriteFile fs1 m3u (relPath c rom)) of
                Some err \<Rightarrow> (fs2, Some (Wrapped ''writing m3u'' (PathError err)))
              | None \<Rightarrow>
                  (if CopyArtwork st
                   then generateArtworkBg lib e
                          (fst (getBasePaths e) @ [c, ''.media'', d @ ''.png'']) folder
                          (UseGlobalBg st) (ForceBlackBg st) fs3
                   else fs3, None)))"
  by (simp add: createROMShortcut_def Let_def case_prod_beta)

lemma createToolShortcut_steps:
  "createToolShortcut lib e d pak pos st fs =
     (let folder = fst (getBasePaths e) @ [buildFolderName pos d bridgeEmuTag];
          m3u = folder @ [buildFolderName pos d bridgeEmuTag @ ''.m3u''];
          fs1 = fst (MkdirAll fs folder);
          fs2 = fst (WriteFile fs1 (folder @ [''target'']) pak);
          fs3 = fst (WriteFile fs2 m3u ''target'');
          fs4 = fst (writeShortcutMarker fs3 folder d)
      in case snd (MkdirAll fs folder) of
           Some err \<Rightarrow> (fs1, Some (Wrapped ''creating shortcut dir'' (PathError err)))
         | None \<Rightarrow>
             (case snd (WriteFile fs1 (folder @ [''target'']) pak) of
                Some err \<Rightarrow> (fs2, Some (Wrapped ''writing target'' (PathError err)))
              | None \<Rightarrow>
                  (case snd (WriteFile fs2 m3u ''target'') of
                     Some err \<Rightarrow> (fs3, Some (Wrapped ''writing m3u'' (PathError err)))
                   | None \<Rightarrow>
                       (if CopyArtwork st
                        then generateArtworkBg lib e
                               (fst (snd (getBasePaths e)) @ [''.media'', d @ ''.png'']) folder
                               (UseGlobalBg st) (ForceBlackBg st) fs4
                        else fs4, None))))"
  by (simp add: createToolShortcut_def Let_def case_prod_beta)

lemma not_prefix_child [simp]: "\<not> prefix (dir @ [x]) dir"
  by (auto dest: prefix_length_le)

lemma generateArtworkBg_file:
  assumes "x \<noteq> ''.media''"
  shows "lookupNode (generateArtworkBg lib e art dest u f fs) (dest @ [x]) = lookupNode fs (dest @ [x])"
  using assms by (intro generateArtworkBg_other) simp_all

lemma createROMShortcut_success:
  fixes lib e d t c rom pos st fs
  defines "folder \<equiv> fst (getBasePaths e) @ [buildFolderName pos d t]"
  defines "m3u \<equiv> folder @ [buildFolderName pos d t @ ''.m3u'']"
  defines "fs1 \<equiv> fst (MkdirAll fs folder)"
  defines "fs2 \<equiv> fst (WriteFile fs1 m3u (relPath c rom))"
  defines "fs3 \<equiv> fst (writeShortcutMarker fs2 folder d)"
  assumes "snd (createROMShortcut lib e d t c rom pos st fs) = None"
  shows "snd (MkdirAll fs folder) = None"
    and "snd (WriteFile fs1 m3u (relPath c rom)) = None"
    and "fst (createROMShortcut lib e d t c rom pos st fs) =
           (if CopyArtwork st
            then generateArtworkBg lib e (fst (getBasePaths e) @ [c, ''.media'', d @ ''.png''])
                   folder (UseGlobalBg st) (ForceBlackBg st) fs3
            else fs3)"
  using assms(6) unfolding folder_def m3u_def fs1_def fs2_def fs3_def
  by (auto simp: createROMShortcut_steps Let_def split: option.splits)

lemma createROMShortcut_folder:
  assumes "snd (createROMShortcut lib e d t c rom pos st fs) = None"
  shows "lookupNode (fst (createROMShortcut lib e d t c rom pos st fs))
           (fst (getBasePaths e) @ [buildFolderName pos d t]) \<noteq> None"
proof -
  let ?folder = "fst (getBasePaths e) @ [buildFolderName pos d t]"
  let ?m3u = "?folder @ [buildFolderName pos d t @ ''.m3u'']"
  let ?fs1 = "fst (MkdirAll fs ?folder)"
  let ?fs2 = "fst (WriteFile ?fs1 ?m3u (relPath c rom))"
  let ?fs3 = "fst (writeShortcutMarker ?fs2 ?folder d)"
  note s = createROMShortcut_success [OF assms]
  have "lookupNode ?fs1 ?folder = Some Dir" using s(1) by (rule MkdirAll_success)
  then have "lookupNode ?fs2 ?folder = Some Dir" by (rule WriteFile_keeps_Dir)
  then have 3: "lookupNode ?fs3 ?folder \<noteq> None"
    by (simp add: writeShortcutMarker_def WriteFile_keeps_Dir)
  then have 4: "lookupNode (generateArtworkBg lib e art ?folder u f ?fs3) ?folder \<noteq> None"
    for art u f
    by (rule generateArtworkBg_exists)
  show ?thesis
  proof (cases "CopyArtwork st")
    case True
    then show ?thesis unfolding s(3) using 4 by (simp del: not_None_eq)
  next
    case False
    then show ?thesis unfolding s(3) using 3 by (simp del: not_None_eq)
  qed
qed

lemma createROMShortcut_pointer:
  assumes "snd (createROMShortcut lib e d t c rom pos st fs) = None"
  shows "ReadFile (fst (createROMShortcut lib e d t c rom pos st fs))
           (fst (getBasePaths e) @ [buildFolderName pos d t, buildFolderName pos d t @ ''.m3u''])
         = Inr (relPath c rom)"
proof -
  let ?folder = "fst (getBasePaths e) @ [buildFolderName pos d t]"
  let ?m3u = "?folder @ [buildFolderName pos d t @ ''.m3u'']"
  let ?fs1 = "fst (MkdirAll fs ?folder)"
  let ?fs2 = "fst (WriteFile ?fs1 ?m3u (relPath c rom))"
  let ?fs3 = "fst (writeShortcutMarker ?fs2 ?folder d)"
  note s = createROMShortcut_success [OF assms]
  have 2: "ReadFile ?fs2 ?m3u = Inr (relPath c rom)" using s(2) by (rule WriteFile_reads)
  have "lookupNode ?fs3 ?m3u = lookupNode ?fs2 ?m3u"
    by (simp add: writeShortcutMarker_def shortcutMarkerFile_def WriteFile_other m3u_name_neq)
  then have 3: "ReadFile ?fs3 ?m3u = Inr (relPath c rom)" using 2 by (simp add: ReadFile_def)
  have "lookupNode (generateArtworkBg lib e art ?folder u f ?fs3) ?m3u = lookupNode ?fs3 ?m3u"
    for art u f
    by (intro generateArtworkBg_file) (simp add: m3u_name_neq)
  then have "ReadFile (generateArtworkBg lib e art ?folder u f ?fs3) ?m3u = Inr (relPath c rom)"
    for art u f
    using 3 by (simp add: ReadFile_def)
  with 3 show ?thesis unfolding s(3) by simp
qed

lemma marker_written:
  assumes dir: "lookupNode fs folder = Some Dir"
    and m: "lookupNode fs (folder @ [shortcutMarkerFile]) \<noteq> Some Dir"
    and w: "folder @ [shortcutMarkerFile] \<notin> set (denied fs)"
  shows "ReadFile (fst (writeShortcutMarker fs folder d)) (folder @ [shortcutMarkerFile]) = Inr d"
proof -
  have "snd (WriteFile fs (folder @ [shortcutMarkerFile]) d) = None"
    using assms by (simp add: WriteFile_ok_iff)
  then show ?thesis unfolding writeShortcutMarker_def by (rule WriteFile_reads)
qed

lemma createROMShortcut_marker:
  assumes ok: "snd (createROMShortcut lib e d t c rom pos st fs) = None"
    and m: "lookupNode fs (fst (getBasePaths e) @ [buildFolderName pos d t, shortcutMarkerFile])
              \<noteq> Some Dir"
    and w: "fst (getBasePaths e) @ [buildFolderName pos d t, shortcutMarkerFile] \<notin> set (denied fs)"
  shows "ReadFile (fst (createROMShortcut lib e d t c rom pos st fs))
           (fst (getBasePaths e) @ [buildFolderName pos d t, shortcutMarkerFile]) = Inr d"
proof -
  let ?folder = "fst (getBasePaths e) @ [buildFolderName pos d t]"
  let ?m3u = "?folder @ [buildFolderName pos d t @ ''.m3u'']"
  let ?mk = "?folder @ [shortcutMarkerFile]"
  let ?fs1 = "fst (MkdirAll fs ?folder)"
  let ?fs2 = "fst (WriteFile ?fs1 ?m3u (relPath c rom))"
  let ?fs3 = "fst (writeShortcutMarker ?fs2 ?folder d)"
  note s = createROMShortcut_success [OF ok]
  have "lookupNode ?fs1 ?folder = Some Dir" using s(1) by (rule MkdirAll_success)
  then have d2: "lookupNode ?fs2 ?folder = Some Dir" by (rule WriteFile_keeps_Dir)
  have "lookupNode ?fs1 ?mk = lookupNode fs ?mk" by (intro MkdirAll_untouched) simp
  moreover have "lookupNode ?fs2 ?mk = lookupNode ?fs1 ?mk"
    using m3u_name_neq(2) [of "buildFolderName pos d t"]
    by (intro WriteFile_other) (simp add: shortcutMarkerFile_def)
  ultimately have m2: "lookupNode ?fs2 ?mk \<noteq> Some Dir" using m by simp
  have w2: "?mk \<notin> set (denied ?fs2)" using w by simp
  have 3: "ReadFile ?fs3 ?mk = Inr d" using d2 m2 w2 by (rule marker_written)
  have "lookupNode (generateArtworkBg lib e art ?folder u f ?fs3) ?mk = lookupNode ?fs3 ?mk"
    for art u f
    by (intro generateArtworkBg_file) (simp add: shortcutMarkerFile_def)
  then have "ReadFile (generateArtworkBg lib e art ?folder u f ?fs3) ?mk = Inr d" for art u f
    using 3 by (simp add: ReadFile_def)
  with 3 show ?thesis unfolding s(3) by simp
qed

lemma createToolShortcut_success:
  fixes lib e d pak pos st fs
  defines "folder \<equiv> fst (getBasePaths e) @ [buildFolderName pos d bridgeEmuTag]"
  defines "m3u \<equiv> folder @ [buildFolderName pos d bridgeEmuTag @ ''.m3u'']"
  defines "fs1 \<equiv> fst (MkdirAll fs folder)"
  defines "fs2 \<equiv> fst (WriteFile fs1 (folder @ [''target'']) pak)"
  defines "fs3 \<equiv> fst (WriteFile fs2 m3u ''target'')"
  defines "fs4 \<equiv> fst (writeShortcutMarker fs3 folder d)"
  assumes "snd (createToolShortcut lib e d pak pos st fs) = None"
  shows "snd (MkdirAll fs folder) = None"
    and "snd (WriteFile fs1 (folder @ [''target'']) pak) = None"
    and "snd (WriteFile fs2 m3u ''target'') = None"
    and "fst (createToolShortcut lib e d pak pos st fs) =
           (if CopyArtwork st
            then generateArtworkBg lib e (fst (snd (getBasePaths e)) @ [''.media'', d @ ''.png''])
                   folder (UseGlobalBg st) (ForceBlackBg st) fs4
            else fs4)"
  using assms(7) unfolding folder_def m3u_def fs1_def fs2_def fs3_def fs4_def
  by (auto simp: createToolShortcut_steps Let_def split: option.splits)

lemma createToolShortcut_folder:
  assumes "snd (createToolShortcut lib e d pak pos st fs) = None"
  shows "lookupNode (fst (createToolShortcut lib e d pak pos st fs))
           (fst (getBasePaths e) @ [buildFolderName pos d bridgeEmuTag]) \<noteq> None"
proof -
  let ?n = "buildFolderName pos d bridgeEmuTag"
  let ?folder = "fst (getBasePaths e) @ [?n]"
  let ?m3u = "?folder @ [?n @ ''.m3u'']"
  let ?fs1 = "fst (MkdirAll fs ?folder)"
  let ?fs2 = "fst (WriteFile ?fs1 (?folder @ [''target'']) pak)"
  let ?fs3 = "fst (WriteFile ?fs2 ?m3u ''target'')"
  let ?fs4 = "fst (writeShortcutMarker ?fs3 ?folder d)"
  note s = createToolShortcut_success [OF assms]
  have "lookupNode ?fs1 ?folder = Some Dir" using s(1) by (rule MkdirAll_success)
  then have "lookupNode ?fs2 ?folder = Some Dir" by (rule WriteFile_keeps_Dir)
  then have "lookupNode ?fs3 ?folder = Some Dir" by (rule WriteFile_keeps_Dir)
  then have 4: "lookupNode ?fs4 ?folder \<noteq> None"
    by (simp add: writeShortcutMarker_def WriteFile_keeps_Dir)
  then have 5: "lookupNode (generateArtworkBg lib e art ?folder u f ?fs4) ?folder \<noteq> None"
    for art u f
    by (rule generateArtworkBg_exists)
  show ?thesis
  proof (cases "CopyArtwork st")
    case True
    then show ?thesis unfolding s(4) using 5 by (simp del: not_None_eq)
  next
    case False
    then show ?thesis unfolding s(4) using 4 by (simp del: not_None_eq)
  qed
qed

lemma createToolShortcut_pointer:
  assumes "snd (createToolShortcut lib e d pak pos st fs) = None"
  shows "ReadFile (fst (createToolShortcut lib e d pak pos st fs))
           (fst (getBasePaths e) @ [buildFolderName pos d bridgeEmuTag,
              buildFolderName pos d bridgeEmuTag @ ''.m3u'']) = Inr ''target''"
    and "ReadFile (fst (createToolShortcut lib e d pak pos st fs))
           (fst (getBasePaths e) @ [buildFolderName pos d bridgeEmuTag, ''target'']) = Inr pak"
proof -
  let ?n = "buildFolderName pos d bridgeEmuTag"
  let ?folder = "fst (getBasePaths e) @ [?n]"
  let ?m3u = "?folder @ [?n @ ''.m3u'']"
  let ?tg = "?folder @ [''target'']"
  let ?fs1 = "fst (MkdirAll fs ?folder)"
  let ?fs2 = "fst (WriteFile ?fs1 ?tg pak)"
  let ?fs3 = "fst (WriteFile ?fs2 ?m3u ''target'')"
  let ?fs4 = "fst (writeShortcutMarker ?fs3 ?folder d)"
  note s = createToolShortcut_success [OF assms]
  note ne = m3u_name_neq [of ?n]
  have t2: "ReadFile ?fs2 ?tg = Inr pak" using s(2) by (rule WriteFile_reads)
  have "lookupNode ?fs3 ?tg = lookupNode ?fs2 ?tg"
    using ne(3) by (intro WriteFile_other) auto
  then have t3: "ReadFile ?fs3 ?tg = Inr pak" using t2 by (simp add: ReadFile_def)
  have m3: "ReadFile ?fs3 ?m3u = Inr ''target''" using s(3) by (rule WriteFile_reads)
  have "lookupNode ?fs4 ?tg = lookupNode ?fs3 ?tg"
    by (simp add: writeShortcutMarker_def shortcutMarkerFile_def WriteFile_other)
  then have t4: "ReadFile ?fs4 ?tg = Inr pak" using t3 by (simp add: ReadFile_def)
  have "lookupNode ?fs4 ?m3u = lookupNode ?fs3 ?m3u"
    by (simp add: writeShortcutMarker_def shortcutMarkerFile_def WriteFile_other ne)
  then have m4: "ReadFile ?fs4 ?m3u = Inr ''target''" using m3 by (simp add: ReadFile_def)
  have "lookupNode (generateArtworkBg lib e art ?folder u f ?fs4) ?tg = lookupNode ?fs4 ?tg"
    for art u f
    by (intro generateArtworkBg_file) simp
  then have t5: "ReadFile (generateArtworkBg lib e art ?folder u f ?fs4) ?tg = Inr pak" for art u f
    using t4 by (simp add: ReadFile_def)
  have "lookupNode (generateArtworkBg lib e art ?folder u f ?fs4) ?m3u = lookupNode ?fs4 ?m3u"
    for art u f
    by (intro generateArtworkBg_file) (simp add: ne)
  then have m5: "ReadFile (generateArtworkBg lib e art ?folder u f ?fs4) ?m3u = Inr ''target''"
    for art u f
    using m4 by (simp add: ReadFile_def)
  show "ReadFile (fst (createToolShortcut lib e d pak pos st fs))
           (fst (getBasePaths e) @ [?n, ?n @ ''.m3u'']) = Inr ''target''"
    unfolding s(4) using m4 m5 by simp
  show "ReadFile (fst (createToolShortcut lib e d pak pos st fs))
           (fst (getBasePaths e) @ [?n, ''target'']) = Inr pak"
    unfolding s(4) using t4 t5 by simp
qed

lemma createToolShortcut_marker:
  assumes ok: "snd (createToolShortcut lib e d pak pos st fs) = None"
    and m: "lookupNode fs (fst (getBasePaths e) @ [buildFolderName pos d bridgeEmuTag,
               shortcutMarkerFile]) \<noteq> Some Dir"
    and w: "fst (getBasePaths e) @ [buildFolderName pos d bridgeEmuTag, shortcutMarkerFile]
              \<notin> set (denied fs)"
  shows "ReadFile (fst (createToolShortcut lib e d pak pos st fs))
           (fst (getBasePaths e) @ [buildFolderName pos d bridgeEmuTag, shortcutMarkerFile])
         = Inr d"
proof -
  let ?n = "buildFolderName pos d bridgeEmuTag"
  let ?folder = "fst (getBasePaths e) @ [?n]"
  let ?m3u = "?folder @ [?n @ ''.m3u'']"
  let ?tg = "?folder @ [''target'']"
  let ?mk = "?folder @ [shortcutMarkerFile]"
  let ?fs1 = "fst (MkdirAll fs ?folder)"
  let ?fs2 = "fst (WriteFile ?fs1 ?tg pak)"
  let ?fs3 = "fst (WriteFile ?fs2 ?m3u ''target'')"
  let ?fs4 = "fst (writeShortcutMarker ?fs3 ?folder d)"
  note s = createToolShortcut_success [OF ok]
  have "lookupNode ?fs1 ?folder = Some Dir" using s(1) by (rule MkdirAll_success)
  then have "lookupNode ?fs2 ?folder = Some Dir" by (rule WriteFile_keeps_Dir)
  then have d3: "lookupNode ?fs3 ?folder = Some Dir" by (rule WriteFile_keeps_Dir)
  have "lookupNode ?fs1 ?mk = lookupNode fs ?mk" by (intro MkdirAll_untouched) simp
  moreover have "lookupNode ?fs2 ?mk = lookupNode ?fs1 ?mk"
    by (intro WriteFile_other) (simp add: shortcutMarkerFile_def)
  moreover have "lookupNode ?fs3 ?mk = lookupNode ?fs2 ?mk"
    using m3u_name_neq(2) [of ?n]
    by (intro WriteFile_other) (simp add: shortcutMarkerFile_def)
  ultimately have m3: "lookupNode ?fs3 ?mk \<noteq> Some Dir" using m by simp
  have w3: "?mk \<notin> set (denied ?fs3)" using w by simp
  have 4: "ReadFile ?fs4 ?mk = Inr d" using d3 m3 w3 by (rule marker_written)
  have "lookupNode (generateArtworkBg lib e art ?folder u f ?fs4) ?mk = lookupNode ?fs4 ?mk"
    for art u f
    by (intro generateArtworkBg_file) (simp add: shortcutMarkerFile_def)
  then have "ReadFile (generateArtworkBg lib e art ?folder u f ?fs4) ?mk = Inr d" for art u f
    using 4 by (simp add: ReadFile_def)
  with 4 show ?thesis unfolding s(4) by simp
qed

section \<open>Recognising, finding and pointing\<close>

lemma isShortcutFolder_marker:
  "lookupNode fs (folder @ [shortcutMarkerFile]) \<noteq> None \<Longrightarrow> isShortcutFolder fs folder"
  by (simp add: isShortcutFolder_def ok_Stat Let_def)

lemma ReadFile_exists: "ReadFile fs p = Inr d \<Longrightarrow> lookupNode fs p \<noteq> None"
  by (auto simp: ReadFile_def split: option.splits)







lemma shortcutExists_iff:
  "shortcutExists e fs d t \<longleftrightarrow>
     ok (Stat fs (fst (getBasePaths e) @ [buildFolderName ShortcutPositionBottom d t]))
     \<or> ok (Stat fs (fst (getBasePaths e) @ [buildFolderName ShortcutPositionTop d t]))
     \<or> ok (Stat fs (fst (getBasePaths e) @ [buildFolderName ShortcutPositionAlpha d t]))"
  by (simp add: shortcutExists_def case_prod_beta)

lemma shortcutExists_at:
  "lookupNode fs (fst (getBasePaths e) @ [buildFolderName pos d t]) \<noteq> None
   \<Longrightarrow> shortcutExists e fs d t"
  by (cases pos) (simp_all add: shortcutExists_iff ok_Stat del: not_None_eq)

text \<open>
  Claim C4. After \<^verbatim>\<open>createROMShortcut\<close> or \<^verbatim>\<open>createToolShortcut\<close> has returned
  \<^verbatim>\<open>nil\<close>, under any position, \<^verbatim>\<open>shortcutExists\<close> is true for the display name and the
  tag; it probes the folder names of the three positions.
\<close>

theorem shortcutExists_after_creation:
  "(snd (createROMShortcut lib e d t c rom pos st fs) = None
    \<longrightarrow> shortcutExists e (fst (createROMShortcut lib e d t c rom pos st fs)) d t)
   \<and> (snd (createToolShortcut lib e d pak pos st fs) = None
    \<longrightarrow> shortcutExists e (fst (createToolShortcut lib e d pak pos st fs)) d bridgeEmuTag)
   \<and> (shortcutExists e fs d t \<longleftrightarrow>
        ok (Stat fs (fst (getBasePaths e) @ [buildFolderName ShortcutPositionBottom d t]))
        \<or> ok (Stat fs (fst (getBasePaths e) @ [buildFolderName ShortcutPositionTop d t]))
        \<or> ok (Stat fs (fst (getBasePaths e) @ [buildFolderName ShortcutPositionAlpha d t])))"
  using createROMShortcut_folder [of lib e d t c rom pos st fs]
    createToolShortcut_folder [of lib e d pak pos st fs]
    shortcutExists_iff [of e fs d t]
  by (auto intro: shortcutExists_at simp del: not_None_eq)

text \<open>A game shortcut at the top and a tool shortcut in alphabetical position.\<close>

theorem shortcutExists_after_creation_witness:
  "snd (createROMShortcut sampleLib smartPro ''Battletoads'' ''MD'' ''Sega Genesis (MD)''
          battletoads ShortcutPositionTop noArtwork card) = None
   \<and> shortcutExists smartPro
        (fst (createROMShortcut sampleLib smartPro ''Battletoads'' ''MD'' ''Sega Genesis (MD)''
                battletoads ShortcutPositionTop noArtwork card)) ''Battletoads'' ''MD''
   \<and> snd (createToolShortcut sampleLib smartPro ''Files'' ''/mnt/SDCARD/Tools/tg5040/Files.pak''
             ShortcutPositionAlpha noArtwork card) = None
   \<and> shortcutExists smartPro
        (fst (createToolShortcut sampleLib smartPro ''Files'' ''/mnt/SDCARD/Tools/tg5040/Files.pak''
                ShortcutPositionAlpha noArtwork card)) ''Files'' bridgeEmuTag"
proof -
  have h1: "snd (createROMShortcut sampleLib smartPro ''Battletoads'' ''MD'' ''Sega Genesis (MD)''
          battletoads ShortcutPositionTop noArtwork card) = None"
    by code_simp
  have h2: "snd (createToolShortcut sampleLib smartPro ''Files'' ''/mnt/SDCARD/Tools/tg5040/Files.pak''
             ShortcutPositionAlpha noArtwork card) = None"
    by code_simp
  note t = shortcutExists_after_creation
     [of sampleLib smartPro "''Battletoads''" "''MD''" "''Sega Genesis (MD)''" battletoads
         ShortcutPositionTop noArtwork card]
  note u = shortcutExists_after_creation
     [of sampleLib smartPro "''Files''" "''MD''" "''Sega Genesis (MD)''" battletoads
         ShortcutPositionAlpha noArtwork card "''/mnt/SDCARD/Tools/tg5040/Files.pak''"]
  from t h1 u h2 show ?thesis by blast
qed

text \<open>
  Claim C6. After a creation that returned \<^verbatim>\<open>nil\<close> the pointer file holds: for a
  multi-disc folder \<^verbatim>\<open>../<console>/<entry>/<entry>.m3u\<close>, for a single-disc CUE folder
  \<^verbatim>\<open>../<console>/<entry>/<entry>.cue\<close>, for a single file \<^verbatim>\<open>../<console>/<entry>\<close>;
  for a tool the word \<^verbatim>\<open>target\<close>, and the file \<^verbatim>\<open>target\<close> beside it holds the path of
  the package.
\<close>

theorem pointer_file_content:
  "(snd (createROMShortcut lib e d t c rom pos st fs) = None
    \<longrightarrow> ReadFile (fst (createROMShortcut lib e d t c rom pos st fs))
          (fst (getBasePaths e) @ [buildFolderName pos d t, buildFolderName pos d t @ ''.m3u''])
        = Inr (if IsMultiDisc rom
               then ''../'' @ c @ ''/'' @ ROMFile.Name rom @ ''/'' @ ROMFile.Name rom @ ''.m3u''
               else if IsCueFolder rom
               then ''../'' @ c @ ''/'' @ ROMFile.Name rom @ ''/'' @ ROMFile.Name rom @ ''.cue''
               else ''../'' @ c @ ''/'' @ ROMFile.Name rom))
   \<and> (snd (createToolShortcut lib e d pak pos st fs) = None
    \<longrightarrow> ReadFile (fst (createToolShortcut lib e d pak pos st fs))
          (fst (getBasePaths e) @ [buildFolderName pos d bridgeEmuTag,
             buildFolderName pos d bridgeEmuTag @ ''.m3u'']) = Inr ''target''
        \<and> ReadFile (fst (createToolShortcut lib e d pak pos st fs))
          (fst (getBasePaths e) @ [buildFolderName pos d bridgeEmuTag, ''target'']) = Inr pak)"
  using createROMShortcut_pointer [of lib e d t c rom pos st fs]
    createToolShortcut_pointer [of lib e d pak pos st fs]
  by (simp add: relPath_def)

text \<open>The pointer files of the two sample shortcuts.\<close>

theorem pointer_file_content_witness:
  "snd (createROMShortcut sampleLib smartPro ''Battletoads'' ''MD'' ''Sega Genesis (MD)''
          battletoads ShortcutPositionTop noArtwork card) = None
   \<and> ReadFile (fst (createROMShortcut sampleLib smartPro ''Battletoads'' ''MD'' ''Sega Genesis (MD)''
          battletoads ShortcutPositionTop noArtwork card))
        (romsPath @ [''0) Battletoads (MD)'', ''0) Battletoads (MD).m3u''])
      = Inr ''../Sega Genesis (MD)/Battletoads (World).md''
   \<and> snd (createToolShortcut sampleLib smartPro ''Files'' ''/mnt/SDCARD/Tools/tg5040/Files.pak''
             ShortcutPositionAlpha noArtwork card) = None
   \<and> ReadFile (fst (createToolShortcut sampleLib smartPro ''Files''
                      ''/mnt/SDCARD/Tools/tg5040/Files.pak'' ShortcutPositionAlpha noArtwork card))
        (romsPath @ [''Files (SHORTCUT)'', ''Files (SHORTCUT).m3u'']) = Inr ''target''
   \<and> ReadFile (fst (createToolShortcut sampleLib smartPro ''Files''
                      ''/mnt/SDCARD/Tools/tg5040/Files.pak'' ShortcutPositionAlpha noArtwork card))
        (romsPath @ [''Files (SHORTCUT)'', ''target'']) = Inr ''/mnt/SDCARD/Tools/tg5040/Files.pak''"
proof -
  have h1: "snd (createROMShortcut sampleLib smartPro ''Battletoads'' ''MD'' ''Sega Genesis (MD)''
          battletoads ShortcutPositionTop noArtwork card) = None"
    by code_simp
  have h2: "snd (createToolShortcut sampleLib smartPro ''Files'' ''/mnt/SDCARD/Tools/tg5040/Files.pak''
             ShortcutPositionAlpha noArtwork card) = None"
    by code_simp
  have n: "fst (getBasePaths smartPro) = romsPath"
    "buildFolderName ShortcutPositionTop ''Battletoads'' ''MD'' = ''0) Battletoads (MD)''"
    "buildFolderName ShortcutPositionAlpha ''Files'' bridgeEmuTag = ''Files (SHORTCUT)''"
    "IsMultiDisc battletoads = False" "IsCueFolder battletoads = False"
    "ROMFile.Name battletoads = ''Battletoads (World).md''"
    by code_simp+
  note t = pointer_file_content
     [of sampleLib smartPro "''Battletoads''" "''MD''" "''Sega Genesis (MD)''" battletoads
         ShortcutPositionTop noArtwork card]
  note u = pointer_file_content
     [of sampleLib smartPro "''Files''" "''MD''" "''Sega Genesis (MD)''" battletoads
         ShortcutPositionAlpha noArtwork card "''/mnt/SDCARD/Tools/tg5040/Files.pak''"]
  from t h1 u h2 show ?thesis unfolding n by simp
qed

text \<open>
  Claim C5, as amended. An error of the creation of the directory, of the write of the
  pointer file, or (for a tool) of the write of the target file ends the creation: the
  function returns the error, wrapped with the name of the step, and the file system
  stays as the failed step left it. When these steps succeed the function returns
  \<^verbatim>\<open>nil\<close>, whatever the write of the marker file and the artwork do: an error of the
  marker file is only logged as a warning.
\<close>

theorem creation_errors:
  "let folder = fst (getBasePaths e) @ [buildFolderName pos d t];
       m3u = folder @ [buildFolderName pos d t @ ''.m3u''];
       fs1 = fst (MkdirAll fs folder);
       tfolder = fst (getBasePaths e) @ [buildFolderName pos d bridgeEmuTag];
       tm3u = tfolder @ [buildFolderName pos d bridgeEmuTag @ ''.m3u''];
       ts1 = fst (MkdirAll fs tfolder);
       ts2 = fst (WriteFile ts1 (tfolder @ [''target'']) pak)
   in (snd (MkdirAll fs folder) = Some err
       \<longrightarrow> createROMShortcut lib e d t c rom pos st fs
           = (fs1, Some (Wrapped ''creating shortcut dir'' (PathError err))))
    \<and> (snd (MkdirAll fs folder) = None \<and> snd (WriteFile fs1 m3u (relPath c rom)) = Some err
       \<longrightarrow> createROMShortcut lib e d t c rom pos st fs
           = (fs1, Some (Wrapped ''writing m3u'' (PathError err))))
    \<and> (snd (MkdirAll fs folder) = None \<and> snd (WriteFile fs1 m3u (relPath c rom)) = None
       \<longrightarrow> snd (createROMShortcut lib e d t c rom pos st fs) = None)
    \<and> (snd (MkdirAll fs tfolder) = Some err
       \<longrightarrow> createToolShortcut lib e d pak pos st fs
           = (ts1, Some (Wrapped ''creating shortcut dir'' (PathError err))))
    \<and> (snd (MkdirAll fs tfolder) = None
         \<and> snd (WriteFile ts1 (tfolder @ [''target'']) pak) = Some err
       \<longrightarrow> createToolShortcut lib e d pak pos st fs
           = (ts1, Some (Wrapped ''writing target'' (PathError err))))
    \<and> (snd (MkdirAll fs tfolder) = None
         \<and> snd (WriteFile ts1 (tfolder @ [''target'']) pak) = None
         \<and> snd (WriteFile ts2 tm3u ''target'') = Some err
       \<longrightarrow> createToolShortcut lib e d pak pos st fs
           = (ts2, Some (Wrapped ''writing m3u'' (PathError err))))
    \<and> (snd (MkdirAll fs tfolder) = None
         \<and> snd (WriteFile ts1 (tfolder @ [''target'']) pak) = None
         \<and> snd (WriteFile ts2 tm3u ''target'') = None
       \<longrightarrow> snd (createToolShortcut lib e d pak pos st fs) = None)"
  by (simp add: Let_def createROMShortcut_steps createToolShortcut_steps WriteFile_error_state)

text \<open>Each step failing in turn, on cards where a file or a directory is in the way.\<close>

theorem creation_errors_witness:
  "createROMShortcut sampleLib smartPro ''Battletoads'' ''MD'' ''Sega Genesis (MD)''
      battletoads ShortcutPositionTop noArtwork cardBlocked
     = (cardBlocked, Some (Wrapped ''creating shortcut dir'' (PathError ENOTDIR)))
   \<and> createROMShortcut sampleLib smartPro ''Battletoads'' ''MD'' ''Sega Genesis (MD)''
      battletoads ShortcutPositionAlpha noArtwork cardBlocked
     = (cardBlocked, Some (Wrapped ''writing m3u'' (PathError EISDIR)))
   \<and> snd (createROMShortcut sampleLib smartPro ''Battletoads'' ''MD'' ''Sega Genesis (MD)''
      battletoads ShortcutPositionBottom noArtwork cardMarkerDir) = None
   \<and> createToolShortcut sampleLib smartPro ''Files'' ''/mnt/SDCARD/Tools/tg5040/Files.pak''
      ShortcutPositionTop noArtwork cardBlocked
     = (cardBlocked, Some (Wrapped ''creating shortcut dir'' (PathError ENOTDIR)))
   \<and> createToolShortcut sampleLib smartPro ''Files'' ''/mnt/SDCARD/Tools/tg5040/Files.pak''
      ShortcutPositionBottom noArtwork cardBlocked
     = (cardBlocked, Some (Wrapped ''writing target'' (PathError EISDIR)))
   \<and> snd (createToolShortcut sampleLib smartPro ''Files'' ''/mnt/SDCARD/Tools/tg5040/Files.pak''
      ShortcutPositionAlpha noArtwork cardBlocked)
     = Some (Wrapped ''writing m3u'' (PathError EISDIR))
   \<and> snd (createToolShortcut sampleLib smartPro ''Files'' ''/mnt/SDCARD/Tools/tg5040/Files.pak''
      ShortcutPositionBottom noArtwork card) = None"
proof -
  let ?pak = "''/mnt/SDCARD/Tools/tg5040/Files.pak''"
  let ?roms = "fst (getBasePaths smartPro)"
  let ?c = "''Sega Genesis (MD)''"
  let ?f = "\<lambda>pos. ?roms @ [buildFolderName pos ''Battletoads'' ''MD'']"
  let ?m = "\<lambda>pos. ?f pos @ [buildFolderName pos ''Battletoads'' ''MD'' @ ''.m3u'']"
  let ?tf = "\<lambda>pos. ?roms @ [buildFolderName pos ''Files'' bridgeEmuTag]"
  let ?tm = "\<lambda>pos. ?tf pos @ [buildFolderName pos ''Files'' bridgeEmuTag @ ''.m3u'']"
  have a1: "snd (MkdirAll cardBlocked (?f ShortcutPositionTop)) = Some ENOTDIR"
    and a2: "fst (MkdirAll cardBlocked (?f ShortcutPositionTop)) = cardBlocked"
    by code_simp+
  have b1: "snd (MkdirAll cardBlocked (?f ShortcutPositionAlpha)) = None
      \<and> snd (WriteFile (fst (MkdirAll cardBlocked (?f ShortcutPositionAlpha)))
              (?m ShortcutPositionAlpha) (relPath ?c battletoads)) = Some EISDIR"
    and b2: "fst (MkdirAll cardBlocked (?f ShortcutPositionAlpha)) = cardBlocked"
    by code_simp+
  have c1: "snd (MkdirAll cardMarkerDir (?f ShortcutPositionBottom)) = None
      \<and> snd (WriteFile (fst (MkdirAll cardMarkerDir (?f ShortcutPositionBottom)))
              (?m ShortcutPositionBottom) (relPath ?c battletoads)) = None"
    by code_simp
  have d1: "snd (MkdirAll cardBlocked (?tf ShortcutPositionTop)) = Some ENOTDIR"
    and d2: "fst (MkdirAll cardBlocked (?tf ShortcutPositionTop)) = cardBlocked"
    by code_simp+
  have e1: "snd (MkdirAll cardBlocked (?tf ShortcutPositionBottom)) = None
      \<and> snd (WriteFile (fst (MkdirAll cardBlocked (?tf ShortcutPositionBottom)))
              (?tf ShortcutPositionBottom @ [''target'']) ?pak) = Some EISDIR"
    and e2: "fst (MkdirAll cardBlocked (?tf ShortcutPositionBottom)) = cardBlocked"
    by code_simp+
  have f1: "snd (MkdirAll cardBlocked (?tf ShortcutPositionAlpha)) = None
      \<and> snd (WriteFile (fst (MkdirAll cardBlocked (?tf ShortcutPositionAlpha)))
              (?tf ShortcutPositionAlpha @ [''target'']) ?pak) = None
      \<and> snd (WriteFile (fst (WriteFile (fst (MkdirAll cardBlocked (?tf ShortcutPositionAlpha)))
                              (?tf ShortcutPositionAlpha @ [''target'']) ?pak))
              (?tm ShortcutPositionAlpha) ''target'') = Some EISDIR"
    by code_simp
  have g1: "snd (MkdirAll card (?tf ShortcutPositionBottom)) = None
      \<and> snd (WriteFile (fst (MkdirAll card (?tf ShortcutPositionBottom)))
              (?tf ShortcutPositionBottom @ [''target'']) ?pak) = None
      \<and> snd (WriteFile (fst (WriteFile (fst (MkdirAll card (?tf ShortcutPositionBottom)))
                              (?tf ShortcutPositionBottom @ [''target'']) ?pak))
              (?tm ShortcutPositionBottom) ''target'') = None"
    by code_simp
  note t = creation_errors [unfolded Let_def, rule_format]
  have r1: "createROMShortcut sampleLib smartPro ''Battletoads'' ''MD'' ?c
      battletoads ShortcutPositionTop noArtwork cardBlocked
     = (cardBlocked, Some (Wrapped ''creating shortcut dir'' (PathError ENOTDIR)))"
    using t [THEN conjunct1, rule_format, OF a1] a2 by simp
  have r2: "createROMShortcut sampleLib smartPro ''Battletoads'' ''MD'' ?c
      battletoads ShortcutPositionAlpha noArtwork cardBlocked
     = (cardBlocked, Some (Wrapped ''writing m3u'' (PathError EISDIR)))"
    using t [THEN conjunct2, THEN conjunct1, rule_format, OF b1] b2 by simp
  have r3: "snd (createROMShortcut sampleLib smartPro ''Battletoads'' ''MD'' ?c
      battletoads ShortcutPositionBottom noArtwork cardMarkerDir) = None"
    using t [THEN conjunct2, THEN conjunct2, THEN conjunct1, rule_format, OF c1] .
  have r4: "createToolShortcut sampleLib smartPro ''Files'' ?pak
      ShortcutPositionTop noArtwork cardBlocked
     = (cardBlocked, Some (Wrapped ''creating shortcut dir'' (PathError ENOTDIR)))"
    using t [THEN conjunct2, THEN conjunct2, THEN conjunct2, THEN conjunct1, rule_format, OF d1] d2
    by simp
  have r5: "createToolShortcut sampleLib smartPro ''Files'' ?pak
      ShortcutPositionBottom noArtwork cardBlocked
     = (cardBlocked, Some (Wrapped ''writing target'' (PathError EISDIR)))"
    using t [THEN conjunct2, THEN conjunct2, THEN conjunct2, THEN conjunct2, THEN conjunct1,
             rule_format, OF e1] e2
    by simp
  have r6: "snd (createToolShortcut sampleLib smartPro ''Files'' ?pak
      ShortcutPositionAlpha noArtwork cardBlocked)
     = Some (Wrapped ''writing m3u'' (PathError EISDIR))"
    using t [THEN conjunct2, THEN conjunct2, THEN conjunct2, THEN conjunct2, THEN conjunct2,
             THEN conjunct1, rule_format, OF f1]
    by simp
  have r7: "snd (createToolShortcut sampleLib smartPro ''Files'' ?pak
      ShortcutPositionBottom noArtwork card) = None"
    using t [THEN conjunct2, THEN conjunct2, THEN conjunct2, THEN conjunct2, THEN conjunct2,
             THEN conjunct2, rule_format, OF g1] .
  from r1 r2 r3 r4 r5 r6 r7 show ?thesis by blast
qed

text \<open>
  Claim C5 as stated fails: with a directory at the place of the marker file, the write of
  the marker file returns an error and \<^verbatim>\<open>createROMShortcut\<close> returns \<^verbatim>\<open>nil\<close>.
\<close>

theorem creation_errors_counterexample:
  "snd (writeShortcutMarker
          (fst (WriteFile
                  (fst (MkdirAll cardMarkerDir
                          (romsPath @ [buildFolderName ShortcutPositionBottom ''Battletoads'' ''MD''])))
                  (romsPath @ [buildFolderName ShortcutPositionBottom ''Battletoads'' ''MD'',
                     buildFolderName ShortcutPositionBottom ''Battletoads'' ''MD'' @ ''.m3u''])
                  (relPath ''Sega Genesis (MD)'' battletoads)))
          (romsPath @ [buildFolderName ShortcutPositionBottom ''Battletoads'' ''MD''])
          ''Battletoads'') = Some EISDIR
   \<and> snd (createROMShortcut sampleLib smartPro ''Battletoads'' ''MD'' ''Sega Genesis (MD)''
            battletoads ShortcutPositionBottom noArtwork cardMarkerDir) = None"
  by code_simp

section \<open>Artwork without a source image\<close>

lemma fillBlack_replicate:
  "fillBlack (replicate (4 * n) 0) = concat (replicate n [0x00, 0x00, 0x00, 0xff])"
proof (induction n)
  case 0
  then show ?case by simp
next
  case (Suc n)
  have "replicate (4 * Suc n) (0::byte) = 0 # 0 # 0 # 0 # replicate (4 * n) 0"
    by (simp add: numeral_eq_Suc)
  with Suc show ?case by simp
qed

lemma blackCanvas_solid:
  assumes "0 \<le> w" and "0 \<le> h"
  shows "imgW (blackCanvas w h) = w" and "imgH (blackCanvas w h) = h"
    and "Pix (blackCanvas w h) = concat (replicate (nat (w * h)) [0x00, 0x00, 0x00, 0xff])"
proof -
  show "imgW (blackCanvas w h) = w" and "imgH (blackCanvas w h) = h"
    by (simp_all add: blackCanvas_def NewNRGBA_def Let_def)
  have "nat (4 * w * h) = 4 * nat (w * h)"
    using assms by (simp add: nat_mult_distrib mult.assoc)
  then show "Pix (blackCanvas w h) = concat (replicate (nat (w * h)) [0x00, 0x00, 0x00, 0xff])"
    by (simp add: blackCanvas_def NewNRGBA_def Let_def fillBlack_replicate)
qed

lemma composeCanvas_black:
  assumes "\<not> u \<or> \<not> ok (loadPNGImage lib fs (globalBgPath e))"
  shows "composeCanvas lib e fs None u
         = (if isBrick e then blackCanvas 1024 768 else blackCanvas 1280 720)"
  using assms
  by (auto simp: composeCanvas_def wallpaperLayer_def screenDimensions_def ok_def Let_def
           split: sum.splits)

lemma generateArtworkBg_black:
  assumes "\<not> ok (Stat fs art)"
    and "\<not> u \<or> \<not> ok (loadPNGImage lib fs (globalBgPath e))"
    and "snd (MkdirAll fs (dest @ [''.media''])) = None"
    and "snd (WriteFile (fst (MkdirAll fs (dest @ [''.media''])))
               (dest @ [''.media'', ''bg.png'']) data) = None"
  shows "ReadFile (generateArtworkBg lib e art dest u True fs) (dest @ [''.media'', ''bg.png''])
         = Inr (pngEncode lib (if isBrick e then blackCanvas 1024 768 else blackCanvas 1280 720))"
proof -
  let ?fs1 = "fst (MkdirAll fs (dest @ [''.media'']))"
  let ?img = "if isBrick e then blackCanvas 1024 768 else blackCanvas 1280 720"
  have c: "composeCanvas lib e fs None u = ?img"
    using assms(2) by (rule composeCanvas_black)
  have g: "generateArtworkBg lib e art dest u True fs
           = fst (WriteFile ?fs1 (dest @ [''.media'', ''bg.png'']) (pngEncode lib ?img))"
    using assms(1,3) c by (simp add: generateArtworkBg_def Let_def case_prod_beta)
  have "snd (WriteFile ?fs1 (dest @ [''.media'', ''bg.png'']) (pngEncode lib ?img)) = None"
    using assms(4) by (simp add: WriteFile_ok_iff)
  then show ?thesis unfolding g by (rule WriteFile_reads)
qed

lemma generateArtworkBg_written:
  assumes "\<not> ok (Stat fs art)"
    and "snd (MkdirAll fs (dest @ [''.media''])) = None"
    and "snd (WriteFile (fst (MkdirAll fs (dest @ [''.media''])))
               (dest @ [''.media'', ''bg.png'']) data) = None"
  shows "ReadFile (generateArtworkBg lib e art dest u True fs) (dest @ [''.media'', ''bg.png''])
         = Inr (pngEncode lib (composeCanvas lib e fs None u))"
proof -
  let ?fs1 = "fst (MkdirAll fs (dest @ [''.media'']))"
  let ?img = "composeCanvas lib e fs None u"
  have g: "generateArtworkBg lib e art dest u True fs
           = fst (WriteFile ?fs1 (dest @ [''.media'', ''bg.png'']) (pngEncode lib ?img))"
    using assms(1,2) by (simp add: generateArtworkBg_def Let_def case_prod_beta)
  have "snd (WriteFile ?fs1 (dest @ [''.media'', ''bg.png'']) (pngEncode lib ?img)) = None"
    using assms(3) by (simp add: WriteFile_ok_iff)
  then show ?thesis unfolding g by (rule WriteFile_reads)
qed

lemma composeCanvas_wallpaper:
  assumes "u" and "loadPNGImage lib fs (globalBgPath e) = Inr bg"
  shows "composeCanvas lib e fs None u =
     (let W = fst (screenDimensions e); H = snd (screenDimensions e);
          newW = fst (coverSize lib W H (imgW bg) (imgH bg));
          newH = snd (coverSize lib W H (imgW bg) (imgH bg))
      in drawImage lib (blackCanvas W H) (0, 0, W, H)
           (biLinearScale lib (NewNRGBA newW newH) bg Src)
           (quot (wrap64 (newW - W)) 2, quot (wrap64 (newH - H)) 2) Src)"
  using assms
  by (simp add: composeCanvas_def wallpaperLayer_def Let_def case_prod_beta
        blackCanvas_def NewNRGBA_def)

lemma take_concat_replicate:
  "0 < n \<Longrightarrow> length xs = k \<Longrightarrow> take k (concat (replicate n xs)) = xs"
  by (cases n) simp_all

lemma hd_concat_replicate:
  "0 < n \<Longrightarrow> xs \<noteq> [] \<Longrightarrow> hd (concat (replicate n xs)) = hd xs"
  by (cases n) simp_all

lemma whiteCanvas:
  "Pix (composeCanvas sampleLib smartPro cardWallpaper None True)
     = concat (replicate 921600 [0xff, 0xff, 0xff, 0xff])"
proof -
  have l: "loadPNGImage sampleLib cardWallpaper (globalBgPath smartPro) = Inr whiteDot"
    by code_simp
  have s: "screenDimensions smartPro = (1280, 720)" by code_simp
  have c: "coverSize sampleLib 1280 720 (imgW whiteDot) (imgH whiteDot) = (1280, 1280)"
    by code_simp
  have t: "take 4 (concat (replicate (nat (1280 * 1280)) (take 4 (Pix whiteDot))))
       = [0xff, 0xff, 0xff, 0xff]"
    by (simp add: whiteDot_def take_concat_replicate)
  have "composeCanvas sampleLib smartPro cardWallpaper None True
      = drawImage sampleLib (blackCanvas 1280 720) (0, 0, 1280, 720)
           (biLinearScale sampleLib (NewNRGBA 1280 1280) whiteDot Src)
           (quot (wrap64 (1280 - 1280)) 2, quot (wrap64 (1280 - 720)) 2) Src"
    using composeCanvas_wallpaper [OF _ l, of True] by (simp add: s c Let_def)
  also have "Pix \<dots> = concat (replicate (nat (1280 * 720)) [0xff, 0xff, 0xff, 0xff])"
    using t by (simp add: sampleLib_def fillWith_def blackCanvas_solid NewNRGBA_def)
  finally show ?thesis by simp
qed

text \<open>
  Claim C7, as amended. With no source artwork: in skip-if-missing mode
  \<^verbatim>\<open>generateArtworkBg\<close> leaves the file system as it is; in always-emit mode, whenever
  \<^verbatim>\<open>.media\<close> and \<^verbatim>\<open>bg.png\<close> can be created, \<^verbatim>\<open>bg.png\<close> holds the PNG encoding of the
  composed base layer. That layer is the black canvas of the size of the screen, 1280x720
  or 1024x768 on the Brick, when the wallpaper layer is off or the wallpaper cannot be
  loaded; when the wallpaper layer is on and the wallpaper loads, it is the wallpaper,
  scaled to the cover size and drawn, centred, over that black canvas. The black canvas
  has the given width and height and every pixel of it is opaque black.
\<close>

theorem artwork_without_source:
  "(\<not> ok (Stat fs art) \<longrightarrow> generateArtworkBg lib e art dest u False fs = fs)
   \<and> (\<not> ok (Stat fs art)
       \<and> snd (MkdirAll fs (dest @ [''.media''])) = None
       \<and> snd (WriteFile (fst (MkdirAll fs (dest @ [''.media''])))
                 (dest @ [''.media'', ''bg.png'']) []) = None
      \<longrightarrow> ReadFile (generateArtworkBg lib e art dest u True fs) (dest @ [''.media'', ''bg.png''])
          = Inr (pngEncode lib (composeCanvas lib e fs None u)))
   \<and> (\<not> u \<or> \<not> ok (loadPNGImage lib fs (globalBgPath e))
      \<longrightarrow> composeCanvas lib e fs None u
          = (if isBrick e then blackCanvas 1024 768 else blackCanvas 1280 720))
   \<and> (u \<and> loadPNGImage lib fs (globalBgPath e) = Inr bg
      \<longrightarrow> composeCanvas lib e fs None u
          = (let W = fst (screenDimensions e); H = snd (screenDimensions e);
                 newW = fst (coverSize lib W H (imgW bg) (imgH bg));
                 newH = snd (coverSize lib W H (imgW bg) (imgH bg))
             in drawImage lib (blackCanvas W H) (0, 0, W, H)
                  (biLinearScale lib (NewNRGBA newW newH) bg Src)
                  (quot (wrap64 (newW - W)) 2, quot (wrap64 (newH - H)) 2) Src))
   \<and> (0 \<le> w \<and> 0 \<le> h
      \<longrightarrow> imgW (blackCanvas w h) = w \<and> imgH (blackCanvas w h) = h
          \<and> Pix (blackCanvas w h) = concat (replicate (nat (w * h)) [0x00, 0x00, 0x00, 0xff]))"
  using generateArtworkBg_skip [of fs art False lib e dest u]
    generateArtworkBg_written [of fs art dest "[]" lib e u]
    composeCanvas_black [of u lib fs e]
    composeCanvas_wallpaper [of u lib fs e bg]
    blackCanvas_solid [of w h]
  by blast

theorem artwork_without_source_witness:
  "\<not> ok (Stat cardWallpaper (romsPath @ [''Sega Genesis (MD)'', ''.media'', ''Battletoads.png'']))
   \<and> generateArtworkBg sampleLib smartPro
        (romsPath @ [''Sega Genesis (MD)'', ''.media'', ''Battletoads.png''])
        (romsPath @ [buildFolderName ShortcutPositionBottom ''Battletoads'' ''MD''])
        True False cardWallpaper = cardWallpaper
   \<and> ReadFile (generateArtworkBg sampleLib smartPro
                  (romsPath @ [''Sega Genesis (MD)'', ''.media'', ''Battletoads.png''])
                  (romsPath @ [buildFolderName ShortcutPositionBottom ''Battletoads'' ''MD''])
                  True True cardWallpaper)
        (romsPath @ [buildFolderName ShortcutPositionBottom ''Battletoads'' ''MD'',
                     ''.media'', ''bg.png''])
      = Inr (pngEncode sampleLib (composeCanvas sampleLib smartPro cardWallpaper None True))
   \<and> composeCanvas sampleLib smartPro cardWallpaper None False = blackCanvas 1280 720
   \<and> loadPNGImage sampleLib cardWallpaper (globalBgPath smartPro) = Inr whiteDot
   \<and> composeCanvas sampleLib smartPro cardWallpaper None True
      = drawImage sampleLib (blackCanvas 1280 720) (0, 0, 1280, 720)
          (biLinearScale sampleLib (NewNRGBA 1280 1280) whiteDot Src) (0, 280) Src
   \<and> imgW (blackCanvas 1280 720) = 1280 \<and> imgH (blackCanvas 1280 720) = 720
   \<and> Pix (blackCanvas 1280 720) = concat (replicate 921600 [0x00, 0x00, 0x00, 0xff])"
proof -
  let ?art = "romsPath @ [''Sega Genesis (MD)'', ''.media'', ''Battletoads.png'']"
  let ?dest = "romsPath @ [buildFolderName ShortcutPositionBottom ''Battletoads'' ''MD'']"
  have h1: "\<not> ok (Stat cardWallpaper ?art)" by code_simp
  have h2: "snd (MkdirAll cardWallpaper (?dest @ [''.media''])) = None" by code_simp
  have h3: "snd (WriteFile (fst (MkdirAll cardWallpaper (?dest @ [''.media''])))
                 (?dest @ [''.media'', ''bg.png'']) []) = None"
    by code_simp
  have h4: "\<not> isBrick smartPro" by code_simp
  have h5: "(0::int) \<le> 1280 \<and> (0::int) \<le> 720" by simp
  have h6: "loadPNGImage sampleLib cardWallpaper (globalBgPath smartPro) = Inr whiteDot"
    by code_simp
  have s: "screenDimensions smartPro = (1280, 720)" by code_simp
  have c: "coverSize sampleLib 1280 720 (imgW whiteDot) (imgH whiteDot) = (1280, 1280)"
    by code_simp
  have q: "quot (wrap64 0) 2 = 0" "quot (wrap64 560) 2 = 280"
    by (simp_all add: quot_def wrap64_def)
  note t = artwork_without_source
     [of cardWallpaper ?art sampleLib smartPro ?dest True whiteDot 1280 720]
  note f = artwork_without_source
     [of cardWallpaper ?art sampleLib smartPro ?dest False whiteDot 1280 720]
  from t h1 have c1: "generateArtworkBg sampleLib smartPro ?art ?dest True False cardWallpaper
      = cardWallpaper" by blast
  from t h1 h2 h3 have c2: "ReadFile (generateArtworkBg sampleLib smartPro ?art ?dest True True
      cardWallpaper) (?dest @ [''.media'', ''bg.png''])
      = Inr (pngEncode sampleLib (composeCanvas sampleLib smartPro cardWallpaper None True))"
    by blast
  from f have "composeCanvas sampleLib smartPro cardWallpaper None False
      = (if isBrick smartPro then blackCanvas 1024 768 else blackCanvas 1280 720)"
    by blast
  with h4 have c3: "composeCanvas sampleLib smartPro cardWallpaper None False = blackCanvas 1280 720"
    by (simp only: if_False)
  from t h6 have "composeCanvas sampleLib smartPro cardWallpaper None True
      = (let W = fst (screenDimensions smartPro); H = snd (screenDimensions smartPro);
             newW = fst (coverSize sampleLib W H (imgW whiteDot) (imgH whiteDot));
             newH = snd (coverSize sampleLib W H (imgW whiteDot) (imgH whiteDot))
         in drawImage sampleLib (blackCanvas W H) (0, 0, W, H)
              (biLinearScale sampleLib (NewNRGBA newW newH) whiteDot Src)
              (quot (wrap64 (newW - W)) 2, quot (wrap64 (newH - H)) 2) Src)"
    by blast
  then have c4: "composeCanvas sampleLib smartPro cardWallpaper None True
      = drawImage sampleLib (blackCanvas 1280 720) (0, 0, 1280, 720)
          (biLinearScale sampleLib (NewNRGBA 1280 1280) whiteDot Src) (0, 280) Src"
    by (simp add: Let_def s c q)
  from t h5 have c5: "imgW (blackCanvas 1280 720) = 1280 \<and> imgH (blackCanvas 1280 720) = 720
          \<and> Pix (blackCanvas 1280 720)
            = concat (replicate (nat (1280 * 720)) [0x00, 0x00, 0x00, 0xff])"
    by blast
  have n: "nat (1280 * 720) = 921600" by simp
  note l = append_assoc append_Cons append_Nil
  from h1 c1 c2 [unfolded l] c3 h6 c4 c5 [unfolded n] show ?thesis by blast
qed

text \<open>
  Claim C7 as stated fails in two ways. On the 1280x720 canvas with the wallpaper layer on
  and a wallpaper of one white pixel on the card, the image written in always-emit mode
  is the composed canvas, whose pixels are all white, not the black canvas. On the Brick
  the image written in always-emit mode is 1024 wide and 768 high, not 1280x720.
\<close>

theorem artwork_without_source_counterexample:
  "ReadFile (generateArtworkBg sampleLib smartPro
               (romsPath @ [''Sega Genesis (MD)'', ''.media'', ''Battletoads.png''])
               (romsPath @ [buildFolderName ShortcutPositionBottom ''Battletoads'' ''MD''])
               True True cardWallpaper)
     (romsPath @ [buildFolderName ShortcutPositionBottom ''Battletoads'' ''MD'',
                  ''.media'', ''bg.png''])
   = Inr (pngEncode sampleLib (composeCanvas sampleLib smartPro cardWallpaper None True))
   \<and> Pix (composeCanvas sampleLib smartPro cardWallpaper None True)
     = concat (replicate 921600 [0xff, 0xff, 0xff, 0xff])
   \<and> composeCanvas sampleLib smartPro cardWallpaper None True \<noteq> blackCanvas 1280 720
   \<and> ReadFile (generateArtworkBg sampleLib brick
               (romsPath @ [''Sega Genesis (MD)'', ''.media'', ''Battletoads.png''])
               (romsPath @ [buildFolderName ShortcutPositionBottom ''Battletoads'' ''MD''])
               False True cardShortcut)
     (romsPath @ [buildFolderName ShortcutPositionBottom ''Battletoads'' ''MD'',
                  ''.media'', ''bg.png''])
   = Inr (pngEncode sampleLib (blackCanvas 1024 768))
   \<and> imgW (blackCanvas 1024 768) = 1024 \<and> imgH (blackCanvas 1024 768) = 768"
proof -
  let ?art = "romsPath @ [''Sega Genesis (MD)'', ''.media'', ''Battletoads.png'']"
  let ?dest = "romsPath @ [buildFolderName ShortcutPositionBottom ''Battletoads'' ''MD'']"
  have w1: "\<not> ok (Stat cardWallpaper ?art)" by code_simp
  have w2: "snd (MkdirAll cardWallpaper (?dest @ [''.media''])) = None" by code_simp
  have w3: "snd (WriteFile (fst (MkdirAll cardWallpaper (?dest @ [''.media''])))
                 (?dest @ [''.media'', ''bg.png'']) []) = None"
    by code_simp
  have a: "ReadFile (generateArtworkBg sampleLib smartPro ?art ?dest True True cardWallpaper)
          (?dest @ [''.media'', ''bg.png''])
        = Inr (pngEncode sampleLib (composeCanvas sampleLib smartPro cardWallpaper None True))"
    using w1 w2 w3 by (rule generateArtworkBg_written)
  note b = whiteCanvas
  have "hd (Pix (composeCanvas sampleLib smartPro cardWallpaper None True)) = 0xff"
    unfolding b by (simp add: hd_concat_replicate)
  moreover have "hd (Pix (blackCanvas 1280 720)) = 0x00"
    by (simp add: blackCanvas_solid hd_concat_replicate)
  ultimately have c: "composeCanvas sampleLib smartPro cardWallpaper None True
      \<noteq> blackCanvas 1280 720"
    by auto
  have h1: "\<not> ok (Stat cardShortcut ?art)" by code_simp
  have h2: "snd (MkdirAll cardShortcut (?dest @ [''.media''])) = None" by code_simp
  have h3: "snd (WriteFile (fst (MkdirAll cardShortcut (?dest @ [''.media''])))
                 (?dest @ [''.media'', ''bg.png'']) []) = None"
    by code_simp
  have h4: "isBrick brick" by code_simp
  have "ReadFile (generateArtworkBg sampleLib brick ?art ?dest False True cardShortcut)
          (?dest @ [''.media'', ''bg.png''])
        = Inr (pngEncode sampleLib
                 (if isBrick brick then blackCanvas 1024 768 else blackCanvas 1280 720))"
    using h1 _ h2 h3 by (rule generateArtworkBg_black) simp
  with h4 have d: "ReadFile (generateArtworkBg sampleLib brick ?art ?dest False True cardShortcut)
          (?dest @ [''.media'', ''bg.png''])
        = Inr (pngEncode sampleLib (blackCanvas 1024 768))"
    by (simp only: if_True)
  have e: "imgW (blackCanvas 1024 768) = 1024" "imgH (blackCanvas 1024 768) = 768"
    by (simp_all add: blackCanvas_solid)
  note l = append_assoc append_Cons append_Nil
  from a [unfolded l] b c d [unfolded l] e show ?thesis by blast
qed

section \<open>Names of earlier generations\<close>

lemma isShortcutFolder_legacy: "isShortcutFolder fs (dir @ [legacyBuildFolderName d t])"
  by (simp add: isShortcutFolder_def Base_def Let_def legacyBuildFolderName_def
        legacyShortcutPrefix_def HasPrefix_def)

lemma shortcutOfEntry_marker:
  assumes "ReadFile fs (romsDir @ [name, shortcutMarkerFile]) = Inr m" and "TrimSpace m \<noteq> []"
  shows "map_option Shortcut.Display (shortcutOfEntry fs romsDir (name, Dir)) = Some (TrimSpace m)"
    and "map_option Shortcut.Tag (shortcutOfEntry fs romsDir (name, Dir)) = Some (extractTag name)"
proof -
  have "lookupNode fs ((romsDir @ [name]) @ [shortcutMarkerFile]) \<noteq> None"
    using assms(1) by (auto dest: ReadFile_exists)
  then have s: "isShortcutFolder fs (romsDir @ [name])" by (rule isShortcutFolder_marker)
  have r: "readShortcutMarker fs (romsDir @ [name]) = TrimSpace m"
    using assms(1) by (simp add: readShortcutMarker_def)
  show "map_option Shortcut.Display (shortcutOfEntry fs romsDir (name, Dir)) = Some (TrimSpace m)"
    using s r assms(2) by (simp add: shortcutOfEntry_def Let_def)
  show "map_option Shortcut.Tag (shortcutOfEntry fs romsDir (name, Dir)) = Some (extractTag name)"
    using s by (simp add: shortcutOfEntry_def Let_def)
qed

text \<open>
  Claim C2, as amended. Decoding strips the current marker U+FEFF and then the legacy
  prefix (the star U+2605 and a space); no other marker is tried. A folder name of the
  generation with the star prefix, for a display name that is not empty and has no
  leading or trailing white space and a tag without \<open>(\<close> and without leading or trailing
  white space, is recognised as a shortcut and decodes to the display name and the tag.
  For any folder name, so also one with the deprecated marker U+200B, a marker file with
  text in it makes the scan take the display name from that file and the tag from the
  name.
\<close>

theorem legacy_names_decode:
  "(d \<noteq> [] \<and> TrimSpace d = d \<and> CHR ''('' \<notin> set t \<and> TrimSpace t = t
    \<longrightarrow> decodeFolderName (legacyBuildFolderName d t) = (d, t)
        \<and> isShortcutFolder fs (dir @ [legacyBuildFolderName d t]))
   \<and> (ReadFile fs (dir @ [name, shortcutMarkerFile]) = Inr m \<and> TrimSpace m \<noteq> []
    \<longrightarrow> map_option Shortcut.Display (shortcutOfEntry fs dir (name, Dir)) = Some (TrimSpace m)
        \<and> map_option Shortcut.Tag (shortcutOfEntry fs dir (name, Dir)) = Some (extractTag name))"
  using legacy_decode [of d t] isShortcutFolder_legacy [of fs dir d t]
    shortcutOfEntry_marker [of fs dir name m]
  by blast

text \<open>A name with the star prefix, and a name with the marker U+200B beside its marker
  file.\<close>

theorem legacy_names_decode_witness:
  "''Battletoads (World)'' \<noteq> [] \<and> TrimSpace ''Battletoads (World)'' = ''Battletoads (World)''
   \<and> CHR ''('' \<notin> set ''MD'' \<and> TrimSpace ''MD'' = ''MD''
   \<and> decodeFolderName (legacyBuildFolderName ''Battletoads (World)'' ''MD'')
       = (''Battletoads (World)'', ''MD'')
   \<and> isShortcutFolder library (romsPath @ [legacyBuildFolderName ''Battletoads (World)'' ''MD''])
   \<and> ReadFile cardZwsMarker (romsPath @ [zwsName, shortcutMarkerFile]) = Inr ''Battletoads''
   \<and> TrimSpace ''Battletoads'' \<noteq> []
   \<and> map_option Shortcut.Display (shortcutOfEntry cardZwsMarker romsPath (zwsName, Dir))
       = Some ''Battletoads''
   \<and> map_option Shortcut.Tag (shortcutOfEntry cardZwsMarker romsPath (zwsName, Dir))
       = Some ''MD''"
proof -
  have h1: "''Battletoads (World)'' \<noteq> [] \<and> TrimSpace ''Battletoads (World)'' = ''Battletoads (World)''
     \<and> CHR ''('' \<notin> set ''MD'' \<and> TrimSpace ''MD'' = ''MD''"
    by code_simp
  have h2: "ReadFile cardZwsMarker (romsPath @ [zwsName, shortcutMarkerFile]) = Inr ''Battletoads''
     \<and> TrimSpace ''Battletoads'' \<noteq> []"
    by code_simp
  have v: "TrimSpace ''Battletoads'' = ''Battletoads''" "extractTag zwsName = ''MD''"
    by code_simp+
  note t = legacy_names_decode [of "''Battletoads (World)''" "''MD''" library romsPath]
  note u = legacy_names_decode
     [of "''Battletoads (World)''" "''MD''" cardZwsMarker romsPath zwsName "''Battletoads''"]
  from t h1 have c1: "decodeFolderName (legacyBuildFolderName ''Battletoads (World)'' ''MD'')
       = (''Battletoads (World)'', ''MD'')
     \<and> isShortcutFolder library (romsPath @ [legacyBuildFolderName ''Battletoads (World)'' ''MD''])"
    by blast
  from u h2 have c2: "map_option Shortcut.Display (shortcutOfEntry cardZwsMarker romsPath (zwsName, Dir))
       = Some (TrimSpace ''Battletoads'')
     \<and> map_option Shortcut.Tag (shortcutOfEntry cardZwsMarker romsPath (zwsName, Dir))
       = Some (extractTag zwsName)"
    by blast
  from h1 h2 c1 c2 show ?thesis unfolding v by blast
qed

text \<open>
  Claim C2 as stated fails: the marker U+200B is not stripped from the display name, and
  without a marker file the folder is not recognised as a shortcut.
\<close>

theorem legacy_names_decode_counterexample:
  "decodeFolderName zwsName = ([CHR 0xE2, CHR 0x80, CHR 0x8B] @ ''Battletoads'', ''MD'')
   \<and> decodeFolderName zwsName \<noteq> (''Battletoads'', ''MD'')
   \<and> \<not> isShortcutFolder cardZws (romsPath @ [zwsName])"
  by code_simp

section \<open>The order of the scan results\<close>

text \<open>
  Claim C10. Every list that \<^verbatim>\<open>scanShortcuts\<close>, \<^verbatim>\<open>scanConsoleDirs\<close>, \<^verbatim>\<open>scanROMs\<close> or
  \<^verbatim>\<open>scanTools\<close> returns is in ascending order of the lower-cased display names, strings
  being compared byte by byte as Go compares them.
\<close>

theorem scans_sorted:
  "(scanShortcuts lib e fs = Inr scs
    \<longrightarrow> sorted (map (\<lambda>sc. ToLower lib (Shortcut.Display sc)) scs))
   \<and> (scanConsoleDirs lib e fs showHidden = Inr cs
    \<longrightarrow> sorted (map (\<lambda>c. ToLower lib (ConsoleDir.Display c)) cs))
   \<and> (scanROMs lib fs dir showHidden = Inr rs
    \<longrightarrow> sorted (map (\<lambda>r. ToLower lib (ROMFile.Display r)) rs))
   \<and> (scanTools lib e fs showHidden = Inr ts
    \<longrightarrow> sorted (map (\<lambda>t. ToLower lib (ToolPak.Display t)) ts))"
  by (auto simp: scanShortcuts_def scanConsoleDirs_def scanROMs_def scanTools_def
        case_prod_beta Let_def split: sum.splits)

text \<open>The four scans of the sample library.\<close>

theorem scans_sorted_witness:
  "scanShortcuts sampleLib smartPro library
     = Inr (projr (scanShortcuts sampleLib smartPro library))
   \<and> map (\<lambda>sc. ToLower sampleLib (Shortcut.Display sc))
        (projr (scanShortcuts sampleLib smartPro library)) = [''battletoads (world)'', ''sonic'']
   \<and> sorted (map (\<lambda>sc. ToLower sampleLib (Shortcut.Display sc))
        (projr (scanShortcuts sampleLib smartPro library)))
   \<and> scanConsoleDirs sampleLib smartPro library False
     = Inr (projr (scanConsoleDirs sampleLib smartPro library False))
   \<and> map (\<lambda>c. ToLower sampleLib (ConsoleDir.Display c))
        (projr (scanConsoleDirs sampleLib smartPro library False)) = [''game boy'', ''sega genesis'']
   \<and> sorted (map (\<lambda>c. ToLower sampleLib (ConsoleDir.Display c))
        (projr (scanConsoleDirs sampleLib smartPro library False)))
   \<and> scanROMs sampleLib library (romsPath @ [''Sega Genesis (MD)'']) False
     = Inr (projr (scanROMs sampleLib library (romsPath @ [''Sega Genesis (MD)'']) False))
   \<and> map (\<lambda>r. ToLower sampleLib (ROMFile.Display r))
        (projr (scanROMs sampleLib library (romsPath @ [''Sega Genesis (MD)'']) False))
       = [''battletoads (world)'', ''sonic'']
   \<and> sorted (map (\<lambda>r. ToLower sampleLib (ROMFile.Display r))
        (projr (scanROMs sampleLib library (romsPath @ [''Sega Genesis (MD)'']) False)))
   \<and> scanTools sampleLib smartPro library False
     = Inr (projr (scanTools sampleLib smartPro library False))
   \<and> map (\<lambda>t. ToLower sampleLib (ToolPak.Display t))
        (projr (scanTools sampleLib smartPro library False)) = [''clock'', ''files'']
   \<and> sorted (map (\<lambda>t. ToLower sampleLib (ToolPak.Display t))
        (projr (scanTools sampleLib smartPro library False)))"
proof -
  have h1: "scanShortcuts sampleLib smartPro library
     = Inr (projr (scanShortcuts sampleLib smartPro library))" by code_simp
  have h2: "scanConsoleDirs sampleLib smartPro library False
     = Inr (projr (scanConsoleDirs sampleLib smartPro library False))" by code_simp
  have h3: "scanROMs sampleLib library (romsPath @ [''Sega Genesis (MD)'']) False
     = Inr (projr (scanROMs sampleLib library (romsPath @ [''Sega Genesis (MD)'']) False))"
    by code_simp
  have h4: "scanTools sampleLib smartPro library False
     = Inr (projr (scanTools sampleLib smartPro library False))" by code_simp
  have v1: "map (\<lambda>sc. ToLower sampleLib (Shortcut.Display sc))
        (projr (scanShortcuts sampleLib smartPro library)) = [''battletoads (world)'', ''sonic'']"
    by code_simp
  have v2: "map (\<lambda>c. ToLower sampleLib (ConsoleDir.Display c))
        (projr (scanConsoleDirs sampleLib smartPro library False)) = [''game boy'', ''sega genesis'']"
    by code_simp
  have v3: "map (\<lambda>r. ToLower sampleLib (ROMFile.Display r))
        (projr (scanROMs sampleLib library (romsPath @ [''Sega Genesis (MD)'']) False))
       = [''battletoads (world)'', ''sonic'']"
    by code_simp
  have v4: "map (\<lambda>t. ToLower sampleLib (ToolPak.Display t))
        (projr (scanTools sampleLib smartPro library False)) = [''clock'', ''files'']"
    by code_simp
  note t = scans_sorted
     [of sampleLib smartPro library "projr (scanShortcuts sampleLib smartPro library)"
         False "projr (scanConsoleDirs sampleLib smartPro library False)"
         "romsPath @ [''Sega Genesis (MD)'']"
         "projr (scanROMs sampleLib library (romsPath @ [''Sega Genesis (MD)'']) False)"
         "projr (scanTools sampleLib smartPro library False)"]
  from t h1 h2 h3 h4 v1 v2 v3 v4 show ?thesis by blast
qed

end
